theory Spec2Isabelle
  imports Main
begin

section \<open>The mount command of buildah (cmd/buildah/mount.go)\<close>

text \<open>
  A shallow embedding of \<^verbatim>\<open>mountCmd\<close>. The command talks to the container store, to
  the builders it opens, to the process (effective uid, standard output, standard error) and to
  two libraries (error wrapping, JSON encoding). Everything it calls but does not define is a
  field of an environment record; the collaborators are state transformers over an abstract
  world \<open>'w\<close>, so that a mount may change what a later call sees. Whatever the command
  calls or writes is appended, in order, to one trace.
\<close>

subsection \<open>Errors\<close>

text \<open>
  Go \<^verbatim>\<open>error\<close> values as built by github.com/pkg/errors: \<^verbatim>\<open>Errorf\<close> makes an error
  from a message, \<^verbatim>\<open>Wrapf\<close> puts a message in front of a cause, and the text of a wrapped
  error is the message, a colon and a space, and the text of the cause. \<open>None\<close> of type
  \<open>error option\<close> is Go's \<^verbatim>\<open>nil\<close>.
\<close>

datatype error = Errorf string | Wrapf error string

fun Error :: "error \<Rightarrow> string" where
  "Error (Errorf msg) = msg"
| "Error (Wrapf cause msg) = msg @ '': '' @ Error cause"

abbreviation nl :: string where
  "nl \<equiv> [CHR 0x0A]"

subsection \<open>Data\<close>

text \<open>The struct \<^verbatim>\<open>jsonMount\<close> (lines 14 to 17); the fields carry the names of their JSON keys.\<close>

record jsonMount =
  container :: string
  mountPoint :: string

text \<open>
  The fields written for one \<^verbatim>\<open>jsonMount\<close>, as its struct tags say: the key
  \<^verbatim>\<open>container\<close> has \<^verbatim>\<open>omitempty\<close> and is left out when the string is empty, the key
  \<^verbatim>\<open>mountPoint\<close> is always written.
\<close>

definition json_fields :: "jsonMount \<Rightarrow> (string \<times> string) list" where
  "json_fields m =
     (if container m = [] then [] else [(''container'', container m)])
     @ [(''mountPoint'', mountPoint m)]"

text \<open>
  Modelled from the spec: the type \<^verbatim>\<open>buildah.Builder\<close> is declared outside
  \<^verbatim>\<open>mount.go\<close>. A builder has an identifier (\<^verbatim>\<open>Container\<close>), a mount label and, when it
  is mounted, a mount point; these are the three fields the command reads. Its two methods,
  \<^verbatim>\<open>Mount\<close> and \<^verbatim>\<open>Mounted\<close>, are fields of the environment below.
\<close>

record builder =
  Container :: string
  MountLabel :: string
  MountPoint :: string

text \<open>
  Modelled from the spec: the store is declared outside \<^verbatim>\<open>mount.go\<close>. The command
  reads the name of its graph driver and hands it to \<^verbatim>\<open>openBuilder\<close> and
  \<^verbatim>\<open>openBuilders\<close>.
\<close>

record store =
  GraphDriverName :: string

text \<open>What the command does to the outside, in the order it does it.\<close>

datatype event =
    OpenBuilderCall string
  | MountCall builder string
  | OpenBuildersCall
  | MountedCall builder
  | Stdout string
  | Stderr string

text \<open>
  The environment: the functions and values \<^verbatim>\<open>mountCmd\<close> uses. \<open>quote\<close> is the
  \<^verbatim>\<open>%q\<close> verb of package fmt on a string.
\<close>

record 'w env =
  VerifyFlagsArgsOrder :: "string list \<Rightarrow> error option"
  getStore :: "'w \<Rightarrow> (error + store) \<times> 'w"
  Geteuid :: int
  openBuilder :: "store \<Rightarrow> string \<Rightarrow> 'w \<Rightarrow> (error + builder) \<times> 'w"
  Mount :: "builder \<Rightarrow> string \<Rightarrow> 'w \<Rightarrow> (error + string) \<times> 'w"
  openBuilders :: "store \<Rightarrow> 'w \<Rightarrow> (error + builder list) \<times> 'w"
  Mounted :: "builder \<Rightarrow> 'w \<Rightarrow> (error + bool) \<times> 'w"
  MarshalIndent :: "jsonMount list option \<Rightarrow> error + string"
  quote :: "string \<Rightarrow> string"

text \<open>
  The local variables of \<^verbatim>\<open>mountCmd\<close> (lines 69 and 70), the world and the trace. A Go
  slice is \<open>None\<close> when it is \<^verbatim>\<open>nil\<close>; \<^verbatim>\<open>var jsonMounts []jsonMount\<close> starts so.
\<close>

record 'w state =
  world :: 'w
  lastError :: "error option"
  jsonMounts :: "jsonMount list option"
  trace :: "event list"

definition init_state :: "'w \<Rightarrow> 'w state" where
  "init_state w = \<lparr>world = w, lastError = None, jsonMounts = None, trace = []\<rparr>"

text \<open>Go's builtin \<^verbatim>\<open>append\<close> of one element: the result is never \<^verbatim>\<open>nil\<close>.\<close>

definition append_slice :: "'a list option \<Rightarrow> 'a \<Rightarrow> 'a list option" where
  "append_slice sl x = Some ((case sl of None \<Rightarrow> [] | Some xs \<Rightarrow> xs) @ [x])"

subsection \<open>The loop over the explicit targets (lines 80 to 110)\<close>

text \<open>
  Lines 83 to 86 and 91 to 94: print the pending error, if there is one, to standard error,
  then keep the new one.
\<close>

definition recordFailure :: "error \<Rightarrow> 'w state \<Rightarrow> 'w state" where
  "recordFailure err s =
     s\<lparr>trace := trace s @ (case lastError s of None \<Rightarrow> [] | Some prev \<Rightarrow> [Stderr (Error prev @ nl)]),
       lastError := Some err\<rparr>"

text \<open>Lines 97 to 109: a mounted target is buffered (JSON) or printed (text).\<close>

definition reportMount :: "bool \<Rightarrow> string list \<Rightarrow> string \<Rightarrow> string \<Rightarrow> 'w state \<Rightarrow> 'w state" where
  "reportMount outputJSON args name mp s =
     (if length args > 1 then
        (if outputJSON
         then s\<lparr>jsonMounts := append_slice (jsonMounts s) \<lparr>container = name, mountPoint = mp\<rparr>\<rparr>
         else s\<lparr>trace := trace s @ [Stdout (name @ '' '' @ mp @ nl)]\<rparr>)
      else
        (if outputJSON
         then s\<lparr>jsonMounts := append_slice (jsonMounts s) \<lparr>container = [], mountPoint = mp\<rparr>\<rparr>
         else s\<lparr>trace := trace s @ [Stdout (mp @ nl)]\<rparr>))"

text \<open>The body of the loop for one target \<open>name\<close> (lines 81 to 109).\<close>

definition mountTarget ::
  "'w env \<Rightarrow> store \<Rightarrow> bool \<Rightarrow> string list \<Rightarrow> string \<Rightarrow> 'w state \<Rightarrow> 'w state" where
  "mountTarget env st outputJSON args name s =
     (case openBuilder env st name (world s) of
        (Inl err, w1) \<Rightarrow>
          recordFailure (Wrapf err (''error reading build container '' @ quote env name))
            (s\<lparr>world := w1, trace := trace s @ [OpenBuilderCall name]\<rparr>)
      | (Inr b, w1) \<Rightarrow>
          (case Mount env b (MountLabel b) w1 of
             (Inl err, w2) \<Rightarrow>
               recordFailure
                 (Wrapf err (''error mounting '' @ quote env name @ '' container ''
                             @ quote env (Container b)))
                 (s\<lparr>world := w2,
                    trace := trace s @ [OpenBuilderCall name, MountCall b (MountLabel b)]\<rparr>)
           | (Inr mp, w2) \<Rightarrow>
               reportMount outputJSON args name mp
                 (s\<lparr>world := w2,
                    trace := trace s @ [OpenBuilderCall name, MountCall b (MountLabel b)]\<rparr>)))"

fun mountTargets ::
  "'w env \<Rightarrow> store \<Rightarrow> bool \<Rightarrow> string list \<Rightarrow> string list \<Rightarrow> 'w state \<Rightarrow> 'w state" where
  "mountTargets env st outputJSON args [] s = s"
| "mountTargets env st outputJSON args (name # rest) s =
     mountTargets env st outputJSON args rest (mountTarget env st outputJSON args name s)"

subsection \<open>The loop over all builders (lines 117 to 129)\<close>

text \<open>Lines 122 to 128: a mounted builder is buffered (JSON) or printed (text).\<close>

definition reportMounted :: "bool \<Rightarrow> builder \<Rightarrow> bool \<Rightarrow> 'w state \<Rightarrow> 'w state" where
  "reportMounted outputJSON b mounted s =
     (if mounted then
        (if outputJSON
         then s\<lparr>jsonMounts := append_slice (jsonMounts s)
                                 \<lparr>container = Container b, mountPoint = MountPoint b\<rparr>\<rparr>
         else s\<lparr>trace := trace s @ [Stdout (Container b @ '' '' @ MountPoint b @ nl)]\<rparr>)
      else s)"

text \<open>The first component is the error the loop returns with, \<open>None\<close> when it runs to its end.\<close>

fun listMounted :: "'w env \<Rightarrow> bool \<Rightarrow> builder list \<Rightarrow> 'w state \<Rightarrow> error option \<times> 'w state" where
  "listMounted env outputJSON [] s = (None, s)"
| "listMounted env outputJSON (b # bs) s =
     (case Mounted env b (world s) of
        (Inl err, w1) \<Rightarrow> (Some err, s\<lparr>world := w1, trace := trace s @ [MountedCall b]\<rparr>)
      | (Inr mounted, w1) \<Rightarrow>
          listMounted env outputJSON bs
            (reportMounted outputJSON b mounted
               (s\<lparr>world := w1, trace := trace s @ [MountedCall b]\<rparr>)))"

subsection \<open>The end of the command (lines 132 to 140)\<close>

definition render :: "'w env \<Rightarrow> bool \<Rightarrow> 'w state \<Rightarrow> error option \<times> 'w state" where
  "render env outputJSON s =
     (if outputJSON then
        (case MarshalIndent env (jsonMounts s) of
           Inl err \<Rightarrow> (Some err, s)
         | Inr data \<Rightarrow> (lastError s, s\<lparr>trace := trace s @ [Stdout (data @ nl)]\<rparr>))
      else (lastError s, s))"

subsection \<open>The command (lines 59 to 141)\<close>

definition rootlessMessage :: "string \<Rightarrow> string" where
  "rootlessMessage driver =
     ''cannot mount using driver '' @ driver
     @ '' in rootless mode. You need to run it in a `buildah unshare` session''"

definition mountCmd :: "'w env \<Rightarrow> string list \<Rightarrow> bool \<Rightarrow> 'w \<Rightarrow> error option \<times> 'w state" where
  "mountCmd env args outputJSON w =
     (case VerifyFlagsArgsOrder env args of
        Some err \<Rightarrow> (Some err, init_state w)
      | None \<Rightarrow>
          (case getStore env w of
             (Inl err, w1) \<Rightarrow> (Some err, init_state w1)
           | (Inr st, w1) \<Rightarrow>
               (if length args > 0 then
                  (if Geteuid env \<noteq> 0 \<and> GraphDriverName st \<noteq> ''vfs''
                   then (Some (Errorf (rootlessMessage (GraphDriverName st))), init_state w1)
                   else render env outputJSON
                          (mountTargets env st outputJSON args args (init_state w1)))
                else
                  (case openBuilders env st w1 of
                     (Inl err, w2) \<Rightarrow>
                       (Some (Wrapf err ''error reading build containers''),
                        (init_state w2)\<lparr>trace := [OpenBuildersCall]\<rparr>)
                   | (Inr builders, w2) \<Rightarrow>
                       (case listMounted env outputJSON builders
                               ((init_state w2)\<lparr>trace := [OpenBuildersCall]\<rparr>) of
                          (Some err, s) \<Rightarrow> (Some err, s)
                        | (None, s) \<Rightarrow> render env outputJSON s)))))"

subsection \<open>Projections of the trace\<close>

fun stdout_of :: "event list \<Rightarrow> string list" where
  "stdout_of [] = []"
| "stdout_of (Stdout x # tr) = x # stdout_of tr"
| "stdout_of (e # tr) = stdout_of tr"

fun stderr_of :: "event list \<Rightarrow> string list" where
  "stderr_of [] = []"
| "stderr_of (Stderr x # tr) = x # stderr_of tr"
| "stderr_of (e # tr) = stderr_of tr"

fun is_Stdout :: "event \<Rightarrow> bool" where
  "is_Stdout (Stdout x) = True"
| "is_Stdout e = False"

fun is_call :: "event \<Rightarrow> bool" where
  "is_call (Stdout x) = False"
| "is_call (Stderr x) = False"
| "is_call e = True"

definition calls_of :: "event list \<Rightarrow> event list" where
  "calls_of tr = filter is_call tr"

text \<open>\<open>before a b tr\<close>: the first \<open>a\<close> of the trace is followed, later, by a \<open>b\<close>.\<close>

fun before :: "event \<Rightarrow> event \<Rightarrow> event list \<Rightarrow> bool" where
  "before a b [] = False"
| "before a b (e # tr) = (if e = a then b \<in> set tr else before a b tr)"

subsection \<open>What the collaborators answer, target by target\<close>

text \<open>
  The claims speak of targets that fail to resolve, fail to mount, or are mounted. These
  definitions name that: \<open>attempt\<close> makes the two collaborator calls of one iteration and
  says how they ended, \<open>attempts\<close> does so for a list of targets, each in the world the
  previous one left.
\<close>

datatype outcome =
    ResolveFailed error
  | MountFailed builder error
  | MountedAt builder string

definition attempt :: "'w env \<Rightarrow> store \<Rightarrow> string \<Rightarrow> 'w \<Rightarrow> outcome \<times> 'w" where
  "attempt env st name w =
     (case openBuilder env st name w of
        (Inl err, w1) \<Rightarrow> (ResolveFailed err, w1)
      | (Inr b, w1) \<Rightarrow>
          (case Mount env b (MountLabel b) w1 of
             (Inl err, w2) \<Rightarrow> (MountFailed b err, w2)
           | (Inr mp, w2) \<Rightarrow> (MountedAt b mp, w2)))"

fun attempts :: "'w env \<Rightarrow> store \<Rightarrow> string list \<Rightarrow> 'w \<Rightarrow> (string \<times> outcome) list" where
  "attempts env st [] w = []"
| "attempts env st (name # rest) w =
     (case attempt env st name w of (oc, w') \<Rightarrow> (name, oc) # attempts env st rest w')"

text \<open>The failure an attempt leaves pending: the collaborator's error with its context.\<close>

fun failure_of :: "'w env \<Rightarrow> string \<times> outcome \<Rightarrow> error option" where
  "failure_of env (name, ResolveFailed err) =
     Some (Wrapf err (''error reading build container '' @ quote env name))"
| "failure_of env (name, MountFailed b err) =
     Some (Wrapf err (''error mounting '' @ quote env name @ '' container ''
                      @ quote env (Container b)))"
| "failure_of env (name, MountedAt b mp) = None"

fun mounted_of :: "string \<times> outcome \<Rightarrow> (string \<times> string) option" where
  "mounted_of (name, MountedAt b mp) = Some (name, mp)"
| "mounted_of (name, oc) = None"

definition failures :: "'w env \<Rightarrow> (string \<times> outcome) list \<Rightarrow> error list" where
  "failures env as = List.map_filter (failure_of env) as"

definition mounts :: "(string \<times> outcome) list \<Rightarrow> (string \<times> string) list" where
  "mounts as = List.map_filter mounted_of as"

fun calls_for :: "string \<times> outcome \<Rightarrow> event list" where
  "calls_for (name, ResolveFailed err) = [OpenBuilderCall name]"
| "calls_for (name, MountFailed b err) = [OpenBuilderCall name, MountCall b (MountLabel b)]"
| "calls_for (name, MountedAt b mp) = [OpenBuilderCall name, MountCall b (MountLabel b)]"

text \<open>
  The failures the loop over the targets records in one run of the command: those of the
  targets' attempts when the loop runs (lines 71 and 76), none when it does not.
\<close>

definition recorded_failures :: "'w env \<Rightarrow> store \<Rightarrow> string list \<Rightarrow> 'w \<Rightarrow> error list" where
  "recorded_failures env st args w1 =
     (if args = [] then []
      else if Geteuid env \<noteq> 0 \<and> GraphDriverName st \<noteq> ''vfs'' then []
      else failures env (attempts env st args w1))"

text \<open>The pending error as a list, and a slice extended by a list of elements.\<close>

fun pending :: "error option \<Rightarrow> error list" where
  "pending None = []"
| "pending (Some e) = [e]"

definition extend_slice :: "'a list option \<Rightarrow> 'a list \<Rightarrow> 'a list option" where
  "extend_slice sl xs =
     (if xs = [] then sl else Some ((case sl of None \<Rightarrow> [] | Some ys \<Rightarrow> ys) @ xs))"

text \<open>The same for the loop over all builders: the answers to the is-mounted queries.\<close>

fun queries :: "'w env \<Rightarrow> builder list \<Rightarrow> 'w \<Rightarrow> (builder \<times> (error + bool)) list" where
  "queries env [] w = []"
| "queries env (b # bs) w =
     (case Mounted env b w of
        (Inl err, w1) \<Rightarrow> [(b, Inl err)]
      | (Inr mounted, w1) \<Rightarrow> (b, Inr mounted) # queries env bs w1)"

fun answered_mounted :: "builder \<times> (error + bool) \<Rightarrow> bool" where
  "answered_mounted (b, Inr mounted) = mounted"
| "answered_mounted (b, Inl err) = False"

fun answered_error :: "builder \<times> (error + bool) \<Rightarrow> bool" where
  "answered_error (b, Inl err) = True"
| "answered_error (b, Inr mounted) = False"

definition mounted_builders :: "(builder \<times> (error + bool)) list \<Rightarrow> builder list" where
  "mounted_builders qs = map fst (filter answered_mounted qs)"

text \<open>The error the loop over the builders stops with: the first one a query answers.\<close>

fun query_error :: "(builder \<times> (error + bool)) list \<Rightarrow> error option" where
  "query_error [] = None"
| "query_error ((b, Inl err) # qs) = Some err"
| "query_error ((b, Inr mounted) # qs) = query_error qs"

text \<open>The elements of a slice.\<close>

fun slice_elems :: "'a list option \<Rightarrow> 'a list" where
  "slice_elems None = []"
| "slice_elems (Some xs) = xs"

subsection \<open>The JSON encoder\<close>

text \<open>
  \<^verbatim>\<open>json.MarshalIndent(v, "", "    ")\<close> of package encoding/json on a \<^verbatim>\<open>[]jsonMount\<close>, as
  that package documents it: a nil slice encodes as \<^verbatim>\<open>null\<close>, an empty one as \<^verbatim>\<open>[]\<close>,
  any other as an array of objects, one element and one field a line, indented by four spaces
  a level. It returns no error on this type. \<open>enc\<close> encodes one string as a JSON string.
\<close>

abbreviation dq :: string where
  "dq \<equiv> [CHR 0x22]"

fun join :: "string \<Rightarrow> string list \<Rightarrow> string" where
  "join sep [] = []"
| "join sep [x] = x"
| "join sep (x # y # zs) = x @ sep @ join sep (y # zs)"

definition json_object :: "(string \<Rightarrow> string) \<Rightarrow> jsonMount \<Rightarrow> string" where
  "json_object enc m =
     ''{'' @ nl
     @ join ('','' @ nl) (map (\<lambda>(k, v). ''        '' @ dq @ k @ dq @ '': '' @ enc v) (json_fields m))
     @ nl @ ''    }''"

definition json_MarshalIndent :: "(string \<Rightarrow> string) \<Rightarrow> jsonMount list option \<Rightarrow> error + string" where
  "json_MarshalIndent enc sl =
     Inr (case sl of
            None \<Rightarrow> ''null''
          | Some ms \<Rightarrow>
              (if ms = [] then ''[]''
               else ''['' @ nl @ join ('','' @ nl) (map (\<lambda>m. ''    '' @ json_object enc m) ms)
                    @ nl @ '']''))"

subsection \<open>A store to run the command on\<close>

text \<open>
  A small world: the names of the containers that are mounted. The store knows three
  containers. The target \<^verbatim>\<open>b\<close> is the container \<^verbatim>\<open>beta\<close>, the target \<^verbatim>\<open>c\<close> is the
  container \<^verbatim>\<open>gamma\<close>, which can neither be mounted nor queried, and the target \<^verbatim>\<open>d\<close>
  is the container \<^verbatim>\<open>delta\<close>; no other target resolves.
\<close>

definition mk_builder :: "string \<Rightarrow> string \<Rightarrow> builder" where
  "mk_builder name mp = \<lparr>Container = name, MountLabel = ''lbl'', MountPoint = mp\<rparr>"

definition demo_openBuilder :: "store \<Rightarrow> string \<Rightarrow> string list \<Rightarrow> (error + builder) \<times> string list" where
  "demo_openBuilder st name w =
     (if name = ''b'' then (Inr (mk_builder ''beta'' []), w)
      else if name = ''c'' then (Inr (mk_builder ''gamma'' []), w)
      else if name = ''d'' then (Inr (mk_builder ''delta'' []), w)
      else (Inl (Errorf ''container not known''), w))"

definition demo_Mount :: "builder \<Rightarrow> string \<Rightarrow> string list \<Rightarrow> (error + string) \<times> string list" where
  "demo_Mount b label w =
     (if Container b = ''gamma'' then (Inl (Errorf ''device busy''), w)
      else (Inr (''/mnt/'' @ Container b), Container b # w))"

definition demo_Mounted :: "builder \<Rightarrow> string list \<Rightarrow> (error + bool) \<times> string list" where
  "demo_Mounted b w =
     (if Container b = ''gamma'' then (Inl (Errorf ''layer not known''), w)
      else (Inr (Container b \<in> set w), w))"

definition demo_env :: "string \<Rightarrow> int \<Rightarrow> string list env" where
  "demo_env driver euid =
     \<lparr>VerifyFlagsArgsOrder = (\<lambda>args. None),
      getStore = (\<lambda>w. (Inr \<lparr>GraphDriverName = driver\<rparr>, w)),
      Geteuid = euid,
      openBuilder = demo_openBuilder,
      Mount = demo_Mount,
      openBuilders = (\<lambda>st w. (Inr [mk_builder ''beta'' ''/mnt/beta'',
                                    mk_builder ''gamma'' ''/mnt/gamma'',
                                    mk_builder ''delta'' ''/mnt/delta''], w)),
      Mounted = demo_Mounted,
      MarshalIndent = json_MarshalIndent (\<lambda>s. dq @ s @ dq),
      quote = (\<lambda>s. dq @ s @ dq)\<rparr>"

text \<open>The same store with nothing but the container \<^verbatim>\<open>beta\<close> in it.\<close>

definition demo_env_one_builder :: "string list env" where
  "demo_env_one_builder =
     (demo_env ''vfs'' 0)\<lparr>openBuilders := (\<lambda>st w. (Inr [mk_builder ''beta'' ''/mnt/beta''], w))\<rparr>"

text \<open>The same, run without privilege on a store whose driver is not \<^verbatim>\<open>vfs\<close>.\<close>

definition demo_env_rootless_one_builder :: "string list env" where
  "demo_env_rootless_one_builder =
     (demo_env ''overlay'' 1000)\<lparr>openBuilders := (\<lambda>st w. (Inr [mk_builder ''beta'' ''/mnt/beta''], w))\<rparr>"

section \<open>Properties\<close>

subsection \<open>One iteration, and the whole loop, in terms of the collaborators' answers\<close>


lemma stdout_of_append: "stdout_of (xs @ ys) = stdout_of xs @ stdout_of ys"
  by (induction xs rule: stdout_of.induct) simp_all

lemma stderr_of_append: "stderr_of (xs @ ys) = stderr_of xs @ stderr_of ys"
  by (induction xs rule: stderr_of.induct) simp_all

lemma calls_of_append: "calls_of (xs @ ys) = calls_of xs @ calls_of ys"
  by (simp add: calls_of_def)

lemma mountTarget_failed:
  assumes "attempt env st name (world s) = (oc, w')" and "failure_of env (name, oc) = Some f"
  shows "mountTarget env st j args name s =
           recordFailure f (s\<lparr>world := w', trace := trace s @ calls_for (name, oc)\<rparr>)"
  using assms
  by (cases oc) (auto simp: attempt_def mountTarget_def split: prod.splits sum.splits)

lemma mountTarget_mounted:
  assumes "attempt env st name (world s) = (MountedAt b mp, w')"
  shows "mountTarget env st j args name s =
           reportMount j args name mp
             (s\<lparr>world := w', trace := trace s @ calls_for (name, MountedAt b mp)\<rparr>)"
  using assms
  by (auto simp: attempt_def mountTarget_def split: prod.splits sum.splits)

lemma world_mountTarget:
  "world (mountTarget env st j args name s) = snd (attempt env st name (world s))"
  by (auto simp: attempt_def mountTarget_def recordFailure_def reportMount_def
           split: prod.splits sum.splits)

lemma lastError_mountTarget:
  "lastError (mountTarget env st j args name s) =
     (case failure_of env (name, fst (attempt env st name (world s))) of
        None \<Rightarrow> lastError s | Some f \<Rightarrow> Some f)"
  by (auto simp: attempt_def mountTarget_def recordFailure_def reportMount_def
           split: prod.splits sum.splits)

lemma failures_Cons:
  "failures env (a # as) = (case failure_of env a of None \<Rightarrow> [] | Some f \<Rightarrow> [f]) @ failures env as"
  by (simp add: failures_def List.map_filter_simps split: option.splits)

lemma mounts_Cons:
  "mounts (a # as) = (case mounted_of a of None \<Rightarrow> [] | Some f \<Rightarrow> [f]) @ mounts as"
  by (simp add: mounts_def List.map_filter_simps split: option.splits)

lemma lastError_mountTargets:
  "lastError (mountTargets env st j args names s) =
     (if failures env (attempts env st names (world s)) = [] then lastError s
      else Some (last (failures env (attempts env st names (world s)))))"
proof (induction names arbitrary: s)
  case Nil
  show ?case by (simp add: failures_def List.map_filter_simps)
next
  case (Cons name rest)
  obtain oc w' where a: "attempt env st name (world s) = (oc, w')"
    by (cases "attempt env st name (world s)")
  show ?case
    using a Cons.IH [of "mountTarget env st j args name s"]
    by (simp add: failures_Cons world_mountTarget lastError_mountTarget split: option.splits)
qed

lemma extend_slice_Nil: "extend_slice sl [] = sl"
  by (simp add: extend_slice_def)

lemma extend_slice_append: "extend_slice (append_slice sl x) xs = extend_slice sl (x # xs)"
  by (simp add: extend_slice_def append_slice_def)

lemma jsonMounts_mountTarget:
  "jsonMounts (mountTarget env st j args name s) =
     (case mounted_of (name, fst (attempt env st name (world s))) of
        None \<Rightarrow> jsonMounts s
      | Some (n, mp) \<Rightarrow>
          (if j then append_slice (jsonMounts s)
                      \<lparr>container = (if 1 < length args then n else []), mountPoint = mp\<rparr>
           else jsonMounts s))"
  by (auto simp: attempt_def mountTarget_def recordFailure_def reportMount_def
           split: prod.splits sum.splits)

lemma trace_mountTarget:
  "trace (mountTarget env st j args name s) =
     trace s @ calls_for (name, fst (attempt env st name (world s)))
     @ (case failure_of env (name, fst (attempt env st name (world s))) of
          None \<Rightarrow> []
        | Some f \<Rightarrow> map (\<lambda>e. Stderr (Error e @ nl)) (pending (lastError s)))
     @ (case mounted_of (name, fst (attempt env st name (world s))) of
          None \<Rightarrow> []
        | Some (n, mp) \<Rightarrow>
            (if j then []
             else [Stdout (if 1 < length args then n @ '' '' @ mp @ nl else mp @ nl)]))"
  by (auto simp: attempt_def mountTarget_def recordFailure_def reportMount_def
           split: prod.splits sum.splits option.splits)

lemma stdout_of_calls_for: "stdout_of (calls_for a) = []"
  by (cases a rule: calls_for.cases) simp_all

lemma stderr_of_calls_for: "stderr_of (calls_for a) = []"
  by (cases a rule: calls_for.cases) simp_all

lemma filter_calls_for: "filter is_call (calls_for a) = calls_for a"
  by (cases a rule: calls_for.cases) simp_all

lemma stdout_of_map_Stderr: "stdout_of (map (\<lambda>e. Stderr (f e)) xs) = []"
  by (induction xs) simp_all

lemma stderr_of_map_Stderr: "stderr_of (map (\<lambda>e. Stderr (f e)) xs) = map f xs"
  by (induction xs) simp_all

lemma filter_call_map_Stderr: "filter is_call (map (\<lambda>e. Stderr (f e)) xs) = []"
  by (induction xs) simp_all

lemma attempts_Cons:
  "attempts env st (name # rest) w =
     (name, fst (attempt env st name w)) # attempts env st rest (snd (attempt env st name w))"
  by (simp split: prod.splits)

lemma jsonMounts_mountTargets_json:
  "jsonMounts (mountTargets env st True args names s) =
     extend_slice (jsonMounts s)
       (map (\<lambda>(n, mp). \<lparr>container = (if 1 < length args then n else []), mountPoint = mp\<rparr>)
            (mounts (attempts env st names (world s))))"
proof (induction names arbitrary: s)
  case Nil
  show ?case by (simp add: mounts_def extend_slice_Nil)
next
  case (Cons name rest)
  show ?case
    using Cons.IH [of "mountTarget env st True args name s"]
    by (simp add: attempts_Cons mounts_Cons world_mountTarget jsonMounts_mountTarget
             extend_slice_append del: attempts.simps split: option.splits)
qed

lemma jsonMounts_mountTargets_text:
  "jsonMounts (mountTargets env st False args names s) = jsonMounts s"
proof (induction names arbitrary: s)
  case Nil
  show ?case by simp
next
  case (Cons name rest)
  show ?case
    using Cons.IH [of "mountTarget env st False args name s"]
    by (simp add: jsonMounts_mountTarget split: option.splits)
qed

lemma stdout_mountTargets_text:
  "stdout_of (trace (mountTargets env st False args names s)) =
     stdout_of (trace s)
     @ map (\<lambda>(n, mp). if 1 < length args then n @ '' '' @ mp @ nl else mp @ nl)
           (mounts (attempts env st names (world s)))"
proof (induction names arbitrary: s)
  case Nil
  show ?case by (simp add: mounts_def)
next
  case (Cons name rest)
  show ?case
    using Cons.IH [of "mountTarget env st False args name s"]
    by (simp add: attempts_Cons mounts_Cons world_mountTarget trace_mountTarget
             stdout_of_append stdout_of_calls_for stdout_of_map_Stderr
             del: attempts.simps split: option.splits)
qed

lemma stdout_mountTargets_json:
  "stdout_of (trace (mountTargets env st True args names s)) = stdout_of (trace s)"
proof (induction names arbitrary: s)
  case Nil
  show ?case by simp
next
  case (Cons name rest)
  show ?case
    using Cons.IH [of "mountTarget env st True args name s"]
    by (simp add: trace_mountTarget stdout_of_append stdout_of_calls_for stdout_of_map_Stderr
             split: option.splits)
qed

lemma calls_mountTargets:
  "calls_of (trace (mountTargets env st j args names s)) =
     calls_of (trace s) @ concat (map calls_for (attempts env st names (world s)))"
proof (induction names arbitrary: s)
  case Nil
  show ?case by simp
next
  case (Cons name rest)
  show ?case
    using Cons.IH [of "mountTarget env st j args name s"]
    by (simp add: attempts_Cons world_mountTarget trace_mountTarget calls_of_def
             filter_calls_for filter_call_map_Stderr
             del: attempts.simps split: option.splits)
qed

lemma butlast_pending:
  "butlast (pending p @ f # fs) = pending p @ butlast (f # fs)"
  by (cases p) simp_all

lemma stderr_mountTargets:
  "stderr_of (trace (mountTargets env st j args names s)) =
     stderr_of (trace s)
     @ map (\<lambda>e. Error e @ nl)
           (butlast (pending (lastError s) @ failures env (attempts env st names (world s))))"
proof (induction names arbitrary: s)
  case Nil
  show ?case by (cases "lastError s") (simp_all add: failures_def)
next
  case (Cons name rest)
  show ?case
    using Cons.IH [of "mountTarget env st j args name s"]
    by (simp add: attempts_Cons failures_Cons world_mountTarget trace_mountTarget
             lastError_mountTarget stderr_of_append stderr_of_calls_for stderr_of_map_Stderr
             butlast_pending butlast_append
             del: attempts.simps split: option.splits)
qed

subsection \<open>The rootless guard\<close>

lemma listMounted_Geteuid:
  "listMounted (env\<lparr>Geteuid := u\<rparr>) j bs s = listMounted env j bs s"
  by (induction bs arbitrary: s) (simp_all split: prod.splits sum.splits)

lemma render_Geteuid: "render (env\<lparr>Geteuid := u\<rparr>) j s = render env j s"
  by (simp add: render_def)

text \<open>
  C1. When the flags are in order and the store opens, a command that runs with an effective
  uid other than 0 on a store whose graph driver is not \<^verbatim>\<open>vfs\<close> and is given at least
  one target returns the error that names the driver, and it has then called no
  collaborator and written nothing: the trace is empty and the world is the one the store
  was opened in. With no target the uid is not looked at: the command does what it does for
  uid 0.
\<close>

theorem rootless_guard:
  assumes "VerifyFlagsArgsOrder env args = None"
    and "getStore env w = (Inr st, w1)"
    and "Geteuid env \<noteq> 0"
    and "GraphDriverName st \<noteq> ''vfs''"
  shows "(args \<noteq> [] \<longrightarrow>
            mountCmd env args outputJSON w =
              (Some (Errorf (''cannot mount using driver '' @ GraphDriverName st
                     @ '' in rootless mode. You need to run it in a `buildah unshare` session'')),
               \<lparr>world = w1, lastError = None, jsonMounts = None, trace = []\<rparr>))
       \<and> (args = [] \<longrightarrow>
            mountCmd env args outputJSON w = mountCmd (env\<lparr>Geteuid := 0\<rparr>) args outputJSON w)"
proof (intro conjI impI)
  assume "args \<noteq> []"
  with assms show "mountCmd env args outputJSON w =
              (Some (Errorf (''cannot mount using driver '' @ GraphDriverName st
                     @ '' in rootless mode. You need to run it in a `buildah unshare` session'')),
               \<lparr>world = w1, lastError = None, jsonMounts = None, trace = []\<rparr>)"
    by (simp add: mountCmd_def rootlessMessage_def init_state_def)
next
  assume "args = []"
  with assms show "mountCmd env args outputJSON w = mountCmd (env\<lparr>Geteuid := 0\<rparr>) args outputJSON w"
    by (simp add: mountCmd_def listMounted_Geteuid render_Geteuid
          cong: prod.case_cong sum.case_cong option.case_cong)
qed

theorem rootless_guard_witness:
  "VerifyFlagsArgsOrder (demo_env ''overlay'' 1000) [''b''] = None
   \<and> getStore (demo_env ''overlay'' 1000) [] = (Inr \<lparr>GraphDriverName = ''overlay''\<rparr>, [])
   \<and> Geteuid (demo_env ''overlay'' 1000) \<noteq> 0
   \<and> GraphDriverName \<lparr>GraphDriverName = ''overlay''\<rparr> \<noteq> ''vfs''
   \<and> mountCmd (demo_env ''overlay'' 1000) [''b''] False [] =
       (Some (Errorf ''cannot mount using driver overlay in rootless mode. You need to run it in a `buildah unshare` session''),
        \<lparr>world = [], lastError = None, jsonMounts = None, trace = []\<rparr>)
   \<and> VerifyFlagsArgsOrder demo_env_rootless_one_builder [] = None
   \<and> getStore demo_env_rootless_one_builder [''beta''] =
       (Inr \<lparr>GraphDriverName = ''overlay''\<rparr>, [''beta''])
   \<and> Geteuid demo_env_rootless_one_builder \<noteq> 0
   \<and> mountCmd demo_env_rootless_one_builder [] False [''beta''] =
       mountCmd (demo_env_rootless_one_builder\<lparr>Geteuid := 0\<rparr>) [] False [''beta'']
   \<and> mountCmd demo_env_rootless_one_builder [] False [''beta''] =
       (None, \<lparr>world = [''beta''], lastError = None, jsonMounts = None,
               trace = [OpenBuildersCall, MountedCall (mk_builder ''beta'' ''/mnt/beta''),
                        Stdout (''beta /mnt/beta'' @ nl)]\<rparr>)"
proof -
  let ?one = demo_env_rootless_one_builder
  have g1: "VerifyFlagsArgsOrder ?one [] = None"
    by (simp add: demo_env_rootless_one_builder_def demo_env_def)
  have g2: "getStore ?one [''beta''] = (Inr \<lparr>GraphDriverName = ''overlay''\<rparr>, [''beta''])"
    by (simp add: demo_env_rootless_one_builder_def demo_env_def)
  have g3: "Geteuid ?one \<noteq> 0"
    by (simp add: demo_env_rootless_one_builder_def demo_env_def)
  have g4: "GraphDriverName \<lparr>GraphDriverName = ''overlay''\<rparr> \<noteq> ''vfs''" by simp
  have run: "mountCmd ?one [] False [''beta''] =
       (None, \<lparr>world = [''beta''], lastError = None, jsonMounts = None,
               trace = [OpenBuildersCall, MountedCall (mk_builder ''beta'' ''/mnt/beta''),
                        Stdout (''beta /mnt/beta'' @ nl)]\<rparr>)"
    by (simp add: mountCmd_def render_def reportMounted_def init_state_def
          demo_env_rootless_one_builder_def demo_env_def demo_Mounted_def mk_builder_def)
  have skip: "mountCmd ?one [] False [''beta''] = mountCmd (?one\<lparr>Geteuid := 0\<rparr>) [] False [''beta'']"
    using rootless_guard [OF g1 g2 g3 g4, of False] by simp
  have first: "VerifyFlagsArgsOrder (demo_env ''overlay'' 1000) [''b''] = None
   \<and> getStore (demo_env ''overlay'' 1000) [] = (Inr \<lparr>GraphDriverName = ''overlay''\<rparr>, [])
   \<and> Geteuid (demo_env ''overlay'' 1000) \<noteq> 0
   \<and> GraphDriverName \<lparr>GraphDriverName = ''overlay''\<rparr> \<noteq> ''vfs''
   \<and> mountCmd (demo_env ''overlay'' 1000) [''b''] False [] =
       (Some (Errorf ''cannot mount using driver overlay in rootless mode. You need to run it in a `buildah unshare` session''),
        \<lparr>world = [], lastError = None, jsonMounts = None, trace = []\<rparr>)"
    using rootless_guard [of "demo_env ''overlay'' 1000" "[''b'']" "[]"
                             "\<lparr>GraphDriverName = ''overlay''\<rparr>" "[]" False]
    by (simp add: demo_env_def)
  show ?thesis
    using first g1 g2 g3 skip run by blast
qed

subsection \<open>Reaching the two branches; the loop over all builders\<close>

lemma slice_elems_extend: "slice_elems (extend_slice sl xs) = slice_elems sl @ xs"
  by (cases sl) (simp_all add: extend_slice_def)

lemma mountCmd_explicit:
  assumes "VerifyFlagsArgsOrder env args = None"
    and "getStore env w = (Inr st, w1)"
    and "args \<noteq> []"
    and "Geteuid env = 0 \<or> GraphDriverName st = ''vfs''"
  shows "mountCmd env args j w = render env j (mountTargets env st j args args (init_state w1))"
  using assms by (auto simp: mountCmd_def)

lemma mountCmd_listing:
  assumes "VerifyFlagsArgsOrder env [] = None"
    and "getStore env w = (Inr st, w1)"
    and "openBuilders env st w1 = (Inr bs, w2)"
  shows "mountCmd env [] j w =
           (case listMounted env j bs ((init_state w2)\<lparr>trace := [OpenBuildersCall]\<rparr>) of
              (Some err, s) \<Rightarrow> (Some err, s)
            | (None, s) \<Rightarrow> render env j s)"
  using assms by (simp add: mountCmd_def)

lemma queries_Cons:
  "queries env (b # bs) w =
     (b, fst (Mounted env b w))
     # (case fst (Mounted env b w) of Inl err \<Rightarrow> [] | Inr m \<Rightarrow> queries env bs (snd (Mounted env b w)))"
  by (simp split: prod.splits sum.splits)

lemma fst_listMounted:
  "fst (listMounted env j bs s) = query_error (queries env bs (world s))"
  by (induction bs arbitrary: s)
     (auto simp: reportMounted_def split: prod.splits sum.splits)

lemma mounted_builders_Cons:
  "mounted_builders (q # qs) = (if answered_mounted q then [fst q] else []) @ mounted_builders qs"
  by (simp add: mounted_builders_def)

lemma jsonMounts_listMounted_json:
  "jsonMounts (snd (listMounted env True bs s)) =
     extend_slice (jsonMounts s)
       (map (\<lambda>b. \<lparr>container = Container b, mountPoint = MountPoint b\<rparr>)
            (mounted_builders (queries env bs (world s))))"
proof (induction bs arbitrary: s)
  case Nil
  show ?case by (simp add: mounted_builders_def extend_slice_Nil)
next
  case (Cons b bs)
  show ?case
  proof (cases "Mounted env b (world s)")
    case (Pair r w1)
    show ?thesis
    proof (cases r)
      case (Inl err)
      with Pair show ?thesis by (simp add: mounted_builders_def extend_slice_Nil)
    next
      case (Inr m)
      with Pair show ?thesis
        by (simp add: Cons.IH mounted_builders_Cons reportMounted_def extend_slice_append
                 extend_slice_Nil)
    qed
  qed
qed

lemma jsonMounts_listMounted_text:
  "jsonMounts (snd (listMounted env False bs s)) = jsonMounts s"
proof (induction bs arbitrary: s)
  case Nil
  show ?case by simp
next
  case (Cons b bs)
  show ?case
    by (cases "Mounted env b (world s)") (auto simp: Cons.IH reportMounted_def split: sum.splits)
qed


lemma stderr_listMounted:
  "stderr_of (trace (snd (listMounted env j bs s))) = stderr_of (trace s)"
proof (induction bs arbitrary: s)
  case Nil
  show ?case by simp
next
  case (Cons b bs)
  show ?case
    by (cases "Mounted env b (world s)")
       (auto simp: Cons.IH reportMounted_def stderr_of_append split: sum.splits)
qed

lemma stdout_listMounted_json:
  "stdout_of (trace (snd (listMounted env True bs s))) = stdout_of (trace s)"
proof (induction bs arbitrary: s)
  case Nil
  show ?case by simp
next
  case (Cons b bs)
  show ?case
    by (cases "Mounted env b (world s)")
       (auto simp: Cons.IH reportMounted_def stdout_of_append split: sum.splits)
qed

lemma stdout_listMounted_text:
  "stdout_of (trace (snd (listMounted env False bs s))) =
     stdout_of (trace s)
     @ map (\<lambda>b. Container b @ '' '' @ MountPoint b @ nl)
           (mounted_builders (queries env bs (world s)))"
proof (induction bs arbitrary: s)
  case Nil
  show ?case by (simp add: mounted_builders_def)
next
  case (Cons b bs)
  show ?case
  proof (cases "Mounted env b (world s)")
    case (Pair r w1)
    show ?thesis
    proof (cases r)
      case (Inl err)
      with Pair show ?thesis by (simp add: mounted_builders_def stdout_of_append)
    next
      case (Inr m)
      with Pair show ?thesis
        by (simp add: Cons.IH mounted_builders_Cons reportMounted_def stdout_of_append)
    qed
  qed
qed

lemma calls_listMounted:
  "calls_of (trace (snd (listMounted env j bs s))) =
     calls_of (trace s) @ map (\<lambda>q. MountedCall (fst q)) (queries env bs (world s))"
proof (induction bs arbitrary: s)
  case Nil
  show ?case by simp
next
  case (Cons b bs)
  show ?case
  proof (cases "Mounted env b (world s)")
    case (Pair r w1)
    show ?thesis
    proof (cases r)
      case (Inl err)
      with Pair show ?thesis by (simp add: calls_of_def)
    next
      case (Inr m)
      with Pair show ?thesis
        by (simp add: Cons.IH reportMounted_def) (simp add: calls_of_def)
    qed
  qed
qed

lemma queries_prefix:
  "map fst (queries env bs w) = take (length (queries env bs w)) bs"
  by (induction bs arbitrary: w) (auto split: prod.splits sum.splits)

lemma queries_length: "length (queries env bs w) \<le> length bs"
  by (induction bs arbitrary: w) (auto split: prod.splits sum.splits)

lemma queries_error_last:
  "queries env bs w = qs @ [(b, Inl err)] \<Longrightarrow>
     query_error (queries env bs w) = Some err \<and> filter answered_error qs = []"
proof (induction bs arbitrary: w qs)
  case Nil
  then show ?case by simp
next
  case (Cons a bs)
  show ?case
  proof (cases "Mounted env a w")
    case (Pair r w1)
    show ?thesis
    proof (cases r)
      case (Inl e)
      with Pair Cons.prems show ?thesis by (cases qs) auto
    next
      case (Inr m)
      with Pair Cons.prems obtain qs' where qs: "qs = (a, Inr m) # qs'"
        and rest: "queries env bs w1 = qs' @ [(b, Inl err)]"
        by (cases qs) auto
      from Cons.IH [OF rest] Pair Inr qs show ?thesis by simp
    qed
  qed
qed

subsection \<open>A failing is-mounted query\<close>

lemma mounted_builders_snoc_error:
  "mounted_builders (qs @ [(b, Inl err)]) = mounted_builders qs"
  by (simp add: mounted_builders_def)

lemma queries_error_position:
  assumes "queries env bs w = qs @ [(b, Inl err)]"
  shows "length qs < length bs \<and> b = bs ! length qs
         \<and> map fst (qs @ [(b, Inl err)]) = take (Suc (length qs)) bs"
proof -
  have len: "length (queries env bs w) = Suc (length qs)"
    using assms by simp
  with queries_length [of env bs w] have lt: "length qs < length bs" by simp
  have pre: "map fst (qs @ [(b, Inl err)]) = take (Suc (length qs)) bs"
    using queries_prefix [of env bs w] assms by simp
  then have "(map fst (qs @ [(b, Inl err)])) ! length qs = (take (Suc (length qs)) bs) ! length qs"
    by simp
  then have "b = bs ! length qs"
    by (simp add: nth_append)
  with lt pre show ?thesis by simp
qed

text \<open>
  C6. With no target, when the is-mounted query fails on a builder (the one at position
  \<open>length qs\<close> of the enumeration, the queries before it having answered \<open>qs\<close>), the
  command returns that very error. Only the builders up to and including that one were
  queried; standard output holds, in text mode, the lines of the mounted builders before it
  and, in JSON mode, nothing (no document is written); the buffer holds results for the
  builders before it only; nothing went to standard error.
\<close>

theorem listing_hard_stop:
  assumes "VerifyFlagsArgsOrder env [] = None"
    and "getStore env w = (Inr st, w1)"
    and "openBuilders env st w1 = (Inr bs, w2)"
    and "queries env bs w2 = qs @ [(b, Inl err)]"
  shows "length qs < length bs \<and> b = bs ! length qs
       \<and> fst (mountCmd env [] outputJSON w) = Some err
       \<and> calls_of (trace (snd (mountCmd env [] outputJSON w))) =
           OpenBuildersCall # map MountedCall (take (Suc (length qs)) bs)
       \<and> stdout_of (trace (snd (mountCmd env [] outputJSON w))) =
           (if outputJSON then []
            else map (\<lambda>b. Container b @ '' '' @ MountPoint b @ nl) (mounted_builders qs))
       \<and> slice_elems (jsonMounts (snd (mountCmd env [] outputJSON w))) =
           (if outputJSON
            then map (\<lambda>b. \<lparr>container = Container b, mountPoint = MountPoint b\<rparr>)
                     (mounted_builders qs)
            else [])
       \<and> stderr_of (trace (snd (mountCmd env [] outputJSON w))) = []"
proof -
  let ?s0 = "(init_state w2)\<lparr>trace := [OpenBuildersCall]\<rparr>"
  let ?r = "listMounted env outputJSON bs ?s0"
  have w0: "world ?s0 = w2" by (simp add: init_state_def)
  have err: "fst ?r = Some err"
    using queries_error_last [OF assms(4)] by (simp add: fst_listMounted w0)
  have cmd: "mountCmd env [] outputJSON w = (Some err, snd ?r)"
    using err by (cases ?r) (simp add: mountCmd_listing [OF assms(1-3)])
  have pos: "length qs < length bs \<and> b = bs ! length qs
         \<and> map fst (qs @ [(b, Inl err)]) = take (Suc (length qs)) bs"
    by (rule queries_error_position [OF assms(4)])
  have calls: "calls_of (trace (snd ?r)) =
                 OpenBuildersCall # map MountedCall (take (Suc (length qs)) bs)"
  proof -
    have c1: "calls_of (trace (snd ?r)) =
            calls_of (trace ?s0) @ map (\<lambda>q. MountedCall (fst q)) (queries env bs w2)"
      using calls_listMounted [of env outputJSON bs ?s0] by (simp only: w0)
    have c0: "calls_of (trace ?s0) = [OpenBuildersCall]"
      by (simp add: init_state_def calls_of_def)
    have c2: "map (\<lambda>q. MountedCall (fst q)) (queries env bs w2) =
            map MountedCall (map fst (queries env bs w2))"
      by (simp add: comp_def)
    have c3: "map fst (queries env bs w2) = take (Suc (length qs)) bs"
      using queries_prefix [of env bs w2] by (simp add: assms(4))
    show ?thesis
      by (simp only: c1 c0 c2 c3) simp
  qed
  have out: "stdout_of (trace (snd ?r)) =
           (if outputJSON then []
            else map (\<lambda>b. Container b @ '' '' @ MountPoint b @ nl) (mounted_builders qs))"
    by (cases outputJSON)
       (simp_all add: stdout_listMounted_json stdout_listMounted_text w0 assms(4)
          mounted_builders_snoc_error init_state_def)
  have js: "slice_elems (jsonMounts (snd ?r)) =
           (if outputJSON
            then map (\<lambda>b. \<lparr>container = Container b, mountPoint = MountPoint b\<rparr>)
                     (mounted_builders qs)
            else [])"
    by (cases outputJSON)
       (simp_all add: jsonMounts_listMounted_json jsonMounts_listMounted_text w0 assms(4)
          mounted_builders_snoc_error init_state_def slice_elems_extend)
  have er: "stderr_of (trace (snd ?r)) = []"
    by (simp add: stderr_listMounted init_state_def)
  show ?thesis
    using pos calls out js er by (simp add: cmd)
qed

theorem listing_hard_stop_witness:
  "VerifyFlagsArgsOrder (demo_env ''overlay'' 1000) [] = None
   \<and> getStore (demo_env ''overlay'' 1000) [''beta''] = (Inr \<lparr>GraphDriverName = ''overlay''\<rparr>, [''beta''])
   \<and> openBuilders (demo_env ''overlay'' 1000) \<lparr>GraphDriverName = ''overlay''\<rparr> [''beta''] =
       (Inr [mk_builder ''beta'' ''/mnt/beta'', mk_builder ''gamma'' ''/mnt/gamma'',
             mk_builder ''delta'' ''/mnt/delta''], [''beta''])
   \<and> queries (demo_env ''overlay'' 1000)
        [mk_builder ''beta'' ''/mnt/beta'', mk_builder ''gamma'' ''/mnt/gamma'',
         mk_builder ''delta'' ''/mnt/delta''] [''beta''] =
       [(mk_builder ''beta'' ''/mnt/beta'', Inr True)]
       @ [(mk_builder ''gamma'' ''/mnt/gamma'', Inl (Errorf ''layer not known''))]
   \<and> fst (mountCmd (demo_env ''overlay'' 1000) [] False [''beta'']) = Some (Errorf ''layer not known'')
   \<and> calls_of (trace (snd (mountCmd (demo_env ''overlay'' 1000) [] False [''beta'']))) =
       [OpenBuildersCall, MountedCall (mk_builder ''beta'' ''/mnt/beta''),
        MountedCall (mk_builder ''gamma'' ''/mnt/gamma'')]
   \<and> stdout_of (trace (snd (mountCmd (demo_env ''overlay'' 1000) [] False [''beta'']))) =
       [''beta /mnt/beta'' @ nl]
   \<and> slice_elems (jsonMounts (snd (mountCmd (demo_env ''overlay'' 1000) [] True [''beta'']))) =
       [\<lparr>container = ''beta'', mountPoint = ''/mnt/beta''\<rparr>]
   \<and> stdout_of (trace (snd (mountCmd (demo_env ''overlay'' 1000) [] True [''beta'']))) = []"
proof -
  let ?env = "demo_env ''overlay'' 1000"
  let ?bs = "[mk_builder ''beta'' ''/mnt/beta'', mk_builder ''gamma'' ''/mnt/gamma'',
              mk_builder ''delta'' ''/mnt/delta'']"
  have h1: "VerifyFlagsArgsOrder ?env [] = None" by (simp add: demo_env_def)
  have h2: "getStore ?env [''beta''] = (Inr \<lparr>GraphDriverName = ''overlay''\<rparr>, [''beta''])"
    by (simp add: demo_env_def)
  have h3: "openBuilders ?env \<lparr>GraphDriverName = ''overlay''\<rparr> [''beta''] = (Inr ?bs, [''beta''])"
    by (simp add: demo_env_def)
  have h4: "queries ?env ?bs [''beta''] =
       [(mk_builder ''beta'' ''/mnt/beta'', Inr True)]
       @ [(mk_builder ''gamma'' ''/mnt/gamma'', Inl (Errorf ''layer not known''))]"
    by (simp add: demo_env_def demo_Mounted_def mk_builder_def)
  show ?thesis
    using h1 h2 h3 h4
      listing_hard_stop [OF h1 h2 h3 h4, of False] listing_hard_stop [OF h1 h2 h3 h4, of True]
    by (simp add: mounted_builders_def mk_builder_def)
qed

subsection \<open>One pending failure\<close>

lemma attempt_ResolveFailed:
  "attempt env st name w = (ResolveFailed err, w') \<Longrightarrow> openBuilder env st name w = (Inl err, w')"
  by (auto simp: attempt_def split: prod.splits sum.splits)

lemma attempt_MountFailed:
  "attempt env st name w = (MountFailed b err, w') \<Longrightarrow>
     \<exists>w1. openBuilder env st name w = (Inr b, w1) \<and> Mount env b (MountLabel b) w1 = (Inl err, w')"
  by (auto simp: attempt_def split: prod.splits sum.splits)

lemma attempt_MountedAt:
  "attempt env st name w = (MountedAt b mp, w') \<Longrightarrow>
     \<exists>w1. openBuilder env st name w = (Inr b, w1) \<and> Mount env b (MountLabel b) w1 = (Inr mp, w')"
  by (auto simp: attempt_def split: prod.splits sum.splits)

lemma recordFailure_step:
  assumes "attempt env st name (world s) = (oc, w')" and "failure_of env (name, oc) = Some f"
  shows "mountTargets env st j args (name # rest) s =
           mountTargets env st j args rest
             (s\<lparr>world := w',
                trace := trace s @ calls_for (name, oc)
                         @ map (\<lambda>e. Stderr (Error e @ nl)) (pending (lastError s)),
                lastError := Some f\<rparr>)"
proof -
  have "mountTarget env st j args name s =
          s\<lparr>world := w',
            trace := trace s @ calls_for (name, oc)
                     @ map (\<lambda>e. Stderr (Error e @ nl)) (pending (lastError s)),
            lastError := Some f\<rparr>"
    by (cases "lastError s") (simp_all add: mountTarget_failed [OF assms] recordFailure_def)
  then show ?thesis by simp
qed

text \<open>
  C2, as amended. A target that fails to resolve or to mount leaves one pending failure: the
  failure pending before it, if any, is written to standard error, the new failure (the
  collaborator's error under a message that names the target and the operation) takes its
  place, and the loop goes on with the next target. For a batch of three targets where the
  first fails to resolve, the second is mounted and the third fails to mount, the returned
  error is the third's, and the one diagnostic line, that of the first, is written when the
  third fails: in text mode after the line of the second target, in JSON mode before the
  document.
\<close>

theorem pending_failure_policy:
  assumes "VerifyFlagsArgsOrder env [A, B, C] = None"
    and "getStore env w = (Inr st, w1)"
    and "Geteuid env = 0 \<or> GraphDriverName st = ''vfs''"
    and "attempts env st [A, B, C] w1 =
           [(A, ResolveFailed eA), (B, MountedAt bB pB), (C, MountFailed bC eC)]"
  shows "(\<forall>s name rest oc w' f j args.
            attempt env st name (world s) = (oc, w') \<and> failure_of env (name, oc) = Some f \<longrightarrow>
            mountTargets env st j args (name # rest) s =
              mountTargets env st j args rest
                (s\<lparr>world := w',
                   trace := trace s @ calls_for (name, oc)
                            @ map (\<lambda>e. Stderr (Error e @ nl)) (pending (lastError s)),
                   lastError := Some f\<rparr>))
       \<and> fst (mountCmd env [A, B, C] False w) =
           Some (Wrapf eC (''error mounting '' @ quote env C @ '' container ''
                           @ quote env (Container bC)))
       \<and> trace (snd (mountCmd env [A, B, C] False w)) =
           [OpenBuilderCall A,
            OpenBuilderCall B, MountCall bB (MountLabel bB), Stdout (B @ '' '' @ pB @ nl),
            OpenBuilderCall C, MountCall bC (MountLabel bC),
            Stderr (''error reading build container '' @ quote env A @ '': '' @ Error eA @ nl)]
       \<and> (\<forall>data. MarshalIndent env (Some [\<lparr>container = B, mountPoint = pB\<rparr>]) = Inr data \<longrightarrow>
            fst (mountCmd env [A, B, C] True w) =
              Some (Wrapf eC (''error mounting '' @ quote env C @ '' container ''
                              @ quote env (Container bC)))
            \<and> trace (snd (mountCmd env [A, B, C] True w)) =
                [OpenBuilderCall A,
                 OpenBuilderCall B, MountCall bB (MountLabel bB),
                 OpenBuilderCall C, MountCall bC (MountLabel bC),
                 Stderr (''error reading build container '' @ quote env A @ '': '' @ Error eA @ nl),
                 Stdout (data @ nl)])"
proof -
  obtain w2 w3 w4 where a: "attempt env st A w1 = (ResolveFailed eA, w2)"
    and b: "attempt env st B w2 = (MountedAt bB pB, w3)"
    and c: "attempt env st C w3 = (MountFailed bC eC, w4)"
    using assms(4) by (auto split: prod.splits)
  from attempt_ResolveFailed [OF a] have oa: "openBuilder env st A w1 = (Inl eA, w2)" .
  from attempt_MountedAt [OF b] obtain wb where ob: "openBuilder env st B w2 = (Inr bB, wb)"
    and mb: "Mount env bB (MountLabel bB) wb = (Inr pB, w3)" by blast
  from attempt_MountFailed [OF c] obtain wc where oc: "openBuilder env st C w3 = (Inr bC, wc)"
    and mc: "Mount env bC (MountLabel bC) wc = (Inl eC, w4)" by blast
  have cmd: "mountCmd env [A, B, C] j w =
               render env j (mountTargets env st j [A, B, C] [A, B, C] (init_state w1))" for j
    by (rule mountCmd_explicit [OF assms(1) assms(2) _ assms(3)]) simp
  have tx: "mountTargets env st False [A, B, C] [A, B, C] (init_state w1) =
          \<lparr>world = w4,
           lastError = Some (Wrapf eC (''error mounting '' @ quote env C @ '' container ''
                                       @ quote env (Container bC))),
           jsonMounts = None,
           trace = [OpenBuilderCall A,
            OpenBuilderCall B, MountCall bB (MountLabel bB), Stdout (B @ '' '' @ pB @ nl),
            OpenBuilderCall C, MountCall bC (MountLabel bC),
            Stderr (''error reading build container '' @ quote env A @ '': '' @ Error eA @ nl)]\<rparr>"
    by (simp add: mountTarget_def recordFailure_def reportMount_def init_state_def oa ob mb oc mc)
  have js: "mountTargets env st True [A, B, C] [A, B, C] (init_state w1) =
          \<lparr>world = w4,
           lastError = Some (Wrapf eC (''error mounting '' @ quote env C @ '' container ''
                                       @ quote env (Container bC))),
           jsonMounts = Some [\<lparr>container = B, mountPoint = pB\<rparr>],
           trace = [OpenBuilderCall A,
            OpenBuilderCall B, MountCall bB (MountLabel bB),
            OpenBuilderCall C, MountCall bC (MountLabel bC),
            Stderr (''error reading build container '' @ quote env A @ '': '' @ Error eA @ nl)]\<rparr>"
    by (simp add: mountTarget_def recordFailure_def reportMount_def init_state_def append_slice_def
          oa ob mb oc mc)
  have policy: "attempt env st name (world s) = (oc, w') \<and> failure_of env (name, oc) = Some f \<longrightarrow>
            mountTargets env st j args (name # rest) s =
              mountTargets env st j args rest
                (s\<lparr>world := w',
                   trace := trace s @ calls_for (name, oc)
                            @ map (\<lambda>e. Stderr (Error e @ nl)) (pending (lastError s)),
                   lastError := Some f\<rparr>)" for s :: "'a state" and name rest oc w' f j args
    using recordFailure_step [of env st name s oc w' f j args rest] by blast
  have t: "mountCmd env [A, B, C] False w = render env False (mountTargets env st False [A, B, C] [A, B, C] (init_state w1))"
    by (rule cmd)
  have j: "mountCmd env [A, B, C] True w = render env True (mountTargets env st True [A, B, C] [A, B, C] (init_state w1))"
    by (rule cmd)
  show ?thesis
    apply (intro conjI allI)
    subgoal for s name rest oc w' f j args by (rule policy)
    subgoal by (simp only: t tx) (simp add: render_def)
    subgoal by (simp only: t tx) (simp add: render_def)
    subgoal by (simp only: j js) (simp add: render_def)
    done
qed

theorem pending_failure_policy_witness:
  "VerifyFlagsArgsOrder (demo_env ''vfs'' 1000) [''a'', ''b'', ''c''] = None
   \<and> getStore (demo_env ''vfs'' 1000) [] = (Inr \<lparr>GraphDriverName = ''vfs''\<rparr>, [])
   \<and> GraphDriverName \<lparr>GraphDriverName = ''vfs''\<rparr> = ''vfs''
   \<and> attempts (demo_env ''vfs'' 1000) \<lparr>GraphDriverName = ''vfs''\<rparr> [''a'', ''b'', ''c''] [] =
       [(''a'', ResolveFailed (Errorf ''container not known'')),
        (''b'', MountedAt (mk_builder ''beta'' []) ''/mnt/beta''),
        (''c'', MountFailed (mk_builder ''gamma'' []) (Errorf ''device busy''))]
   \<and> fst (mountCmd (demo_env ''vfs'' 1000) [''a'', ''b'', ''c''] False []) =
       Some (Wrapf (Errorf ''device busy'')
               (''error mounting '' @ dq @ ''c'' @ dq @ '' container '' @ dq @ ''gamma'' @ dq))
   \<and> trace (snd (mountCmd (demo_env ''vfs'' 1000) [''a'', ''b'', ''c''] False [])) =
       [OpenBuilderCall ''a'',
        OpenBuilderCall ''b'', MountCall (mk_builder ''beta'' []) ''lbl'',
        Stdout (''b /mnt/beta'' @ nl),
        OpenBuilderCall ''c'', MountCall (mk_builder ''gamma'' []) ''lbl'',
        Stderr (''error reading build container '' @ dq @ ''a'' @ dq
                @ '': container not known'' @ nl)]
   \<and> trace (snd (mountCmd (demo_env ''vfs'' 1000) [''a'', ''b'', ''c''] True [])) =
       [OpenBuilderCall ''a'',
        OpenBuilderCall ''b'', MountCall (mk_builder ''beta'' []) ''lbl'',
        OpenBuilderCall ''c'', MountCall (mk_builder ''gamma'' []) ''lbl'',
        Stderr (''error reading build container '' @ dq @ ''a'' @ dq
                @ '': container not known'' @ nl),
        Stdout (''['' @ nl @ ''    {'' @ nl
                @ ''        '' @ dq @ ''container'' @ dq @ '': '' @ dq @ ''b'' @ dq @ '','' @ nl
                @ ''        '' @ dq @ ''mountPoint'' @ dq @ '': '' @ dq @ ''/mnt/beta'' @ dq @ nl
                @ ''    }'' @ nl @ '']'' @ nl)]"
proof -
  let ?env = "demo_env ''vfs'' 1000"
  have h1: "VerifyFlagsArgsOrder ?env [''a'', ''b'', ''c''] = None" by (simp add: demo_env_def)
  have h2: "getStore ?env [] = (Inr \<lparr>GraphDriverName = ''vfs''\<rparr>, [])" by (simp add: demo_env_def)
  have h3: "Geteuid ?env = 0 \<or> GraphDriverName \<lparr>GraphDriverName = ''vfs''\<rparr> = ''vfs''" by simp
  have h4: "attempts ?env \<lparr>GraphDriverName = ''vfs''\<rparr> [''a'', ''b'', ''c''] [] =
       [(''a'', ResolveFailed (Errorf ''container not known'')),
        (''b'', MountedAt (mk_builder ''beta'' []) ''/mnt/beta''),
        (''c'', MountFailed (mk_builder ''gamma'' []) (Errorf ''device busy''))]"
    by (simp add: attempt_def demo_env_def demo_openBuilder_def demo_Mount_def mk_builder_def)
  have q: "quote ?env = (\<lambda>s. dq @ s @ dq)" by (simp add: demo_env_def)
  have m: "MarshalIndent ?env = json_MarshalIndent (\<lambda>s. dq @ s @ dq)" by (simp add: demo_env_def)
  show ?thesis
    using h1 h2 h4 pending_failure_policy [OF h1 h2 h3 h4]
    by (simp add: q m mk_builder_def json_MarshalIndent_def json_object_def json_fields_def)
qed

text \<open>
  C2 as stated fails: in text mode the line of the second target is on standard output
  before the diagnostic line of the first target is written, not after it.
\<close>

theorem diagnostic_before_success_counterexample:
  "attempts (demo_env ''vfs'' 1000) \<lparr>GraphDriverName = ''vfs''\<rparr> [''a'', ''b'', ''c''] [] =
       [(''a'', ResolveFailed (Errorf ''container not known'')),
        (''b'', MountedAt (mk_builder ''beta'' []) ''/mnt/beta''),
        (''c'', MountFailed (mk_builder ''gamma'' []) (Errorf ''device busy''))]
   \<and> stderr_of (trace (snd (mountCmd (demo_env ''vfs'' 1000) [''a'', ''b'', ''c''] False []))) =
       [''error reading build container '' @ dq @ ''a'' @ dq @ '': container not known'' @ nl]
   \<and> stdout_of (trace (snd (mountCmd (demo_env ''vfs'' 1000) [''a'', ''b'', ''c''] False []))) =
       [''b /mnt/beta'' @ nl]
   \<and> \<not> before
          (Stderr (''error reading build container '' @ dq @ ''a'' @ dq
                   @ '': container not known'' @ nl))
          (Stdout (''b /mnt/beta'' @ nl))
          (trace (snd (mountCmd (demo_env ''vfs'' 1000) [''a'', ''b'', ''c''] False [])))
   \<and> before
        (Stdout (''b /mnt/beta'' @ nl))
        (Stderr (''error reading build container '' @ dq @ ''a'' @ dq
                 @ '': container not known'' @ nl))
        (trace (snd (mountCmd (demo_env ''vfs'' 1000) [''a'', ''b'', ''c''] False [])))"
  by (simp add: mountCmd_def render_def mountTarget_def recordFailure_def reportMount_def
        init_state_def attempt_def demo_env_def demo_openBuilder_def demo_Mount_def mk_builder_def)

subsection \<open>What the command returns\<close>

lemma render_text: "render env False s = (lastError s, s)"
  by (simp add: render_def)

lemma render_json_ok:
  "MarshalIndent env (jsonMounts s) = Inr data \<Longrightarrow>
     render env True s = (lastError s, s\<lparr>trace := trace s @ [Stdout (data @ nl)]\<rparr>)"
  by (simp add: render_def)

lemma render_json_error:
  "MarshalIndent env (jsonMounts s) = Inl err \<Longrightarrow> render env True s = (Some err, s)"
  by (simp add: render_def)

lemma jsonMounts_render: "jsonMounts (snd (render env j s)) = jsonMounts s"
  by (simp add: render_def split: sum.splits)

lemma stderr_render: "stderr_of (trace (snd (render env j s))) = stderr_of (trace s)"
  by (simp add: render_def stderr_of_append split: sum.splits)

lemma world_render: "world (snd (render env j s)) = world s"
  by (simp add: render_def split: sum.splits)

lemma attempts_names: "map fst (attempts env st names w) = names"
  by (induction names arbitrary: w) (simp_all split: prod.splits)


lemma explicit_lastError:
  "lastError (mountTargets env st j args names (init_state w1)) =
     (if failures env (attempts env st names w1) = [] then None
      else Some (last (failures env (attempts env st names w1))))"
  by (simp add: lastError_mountTargets init_state_def)

lemma explicit_stderr:
  "stderr_of (trace (mountTargets env st j args names (init_state w1))) =
     map (\<lambda>e. Error e @ nl) (butlast (failures env (attempts env st names w1)))"
  by (simp add: stderr_mountTargets init_state_def)

lemma explicit_jsonMounts:
  "slice_elems (jsonMounts (mountTargets env st True args names (init_state w1))) =
     map (\<lambda>(n, mp). \<lparr>container = (if 1 < length args then n else []), mountPoint = mp\<rparr>)
         (mounts (attempts env st names w1))"
  by (simp add: jsonMounts_mountTargets_json slice_elems_extend init_state_def)

lemma explicit_stdout_text:
  "stdout_of (trace (mountTargets env st False args names (init_state w1))) =
     map (\<lambda>(n, mp). if 1 < length args then n @ '' '' @ mp @ nl else mp @ nl)
         (mounts (attempts env st names w1))"
  by (simp add: stdout_mountTargets_text init_state_def)

lemma explicit_stdout_json:
  "stdout_of (trace (mountTargets env st True args names (init_state w1))) = []"
  by (simp add: stdout_mountTargets_json init_state_def)




subsection \<open>No failure of the batch is lost\<close>

lemma json_MarshalIndent_total: "\<exists>data. json_MarshalIndent enc sl = Inr data"
  by (simp add: json_MarshalIndent_def)

lemma stderr_listing:
  assumes "VerifyFlagsArgsOrder env [] = None"
    and "getStore env w = (Inr st, w1)"
  shows "stderr_of (trace (snd (mountCmd env [] j w))) = []"
proof (cases "openBuilders env st w1")
  case (Pair r w2)
  show ?thesis
  proof (cases r)
    case (Inl err)
    with Pair assms show ?thesis by (simp add: mountCmd_def init_state_def)
  next
    case (Inr bs)
    let ?r = "listMounted env j bs ((init_state w2)\<lparr>trace := [OpenBuildersCall]\<rparr>)"
    have l: "stderr_of (trace (snd ?r)) = []"
      by (simp add: stderr_listMounted init_state_def)
    have ob: "openBuilders env st w1 = (Inr bs, w2)" using Pair Inr by simp
    show ?thesis
      using l by (cases ?r) (auto simp: mountCmd_listing [OF assms ob] stderr_render
                               split: option.splits)
  qed
qed

text \<open>
  C7. Take a command whose flags are in order and whose store opens, with the encoder of
  encoding/json (which returns no error on a slice of \<^verbatim>\<open>jsonMount\<close>, so that the return of
  line 135 is never taken). In every run, in both modes, the lines on standard error are the
  failures the loop recorded but the last, in order, and the last recorded failure is the
  error the command returns: every recorded failure is either printed or returned.
\<close>

theorem failures_printed_or_returned:
  assumes "VerifyFlagsArgsOrder env args = None"
    and "getStore env w = (Inr st, w1)"
    and "MarshalIndent env = json_MarshalIndent enc"
  shows "stderr_of (trace (snd (mountCmd env args outputJSON w))) =
           map (\<lambda>e. Error e @ nl) (butlast (recorded_failures env st args w1))
       \<and> (recorded_failures env st args w1 \<noteq> [] \<longrightarrow>
            fst (mountCmd env args outputJSON w) = Some (last (recorded_failures env st args w1)))"
proof (cases "args = []")
  case True
  then show ?thesis
    using stderr_listing [OF _ assms(2), of outputJSON] assms(1)
    by (simp add: recorded_failures_def)
next
  case ne: False
  show ?thesis
  proof (cases "Geteuid env \<noteq> 0 \<and> GraphDriverName st \<noteq> ''vfs''")
    case True
    with ne assms(1,2) show ?thesis
      by (simp add: recorded_failures_def mountCmd_def init_state_def)
  next
    case False
    then have g: "Geteuid env = 0 \<or> GraphDriverName st = ''vfs''" by blast
    let ?sf = "mountTargets env st outputJSON args args (init_state w1)"
    let ?fs = "failures env (attempts env st args w1)"
    have rec: "recorded_failures env st args w1 = ?fs"
      using ne g by (auto simp: recorded_failures_def)
    have cmd: "mountCmd env args outputJSON w = render env outputJSON ?sf"
      by (rule mountCmd_explicit [OF assms(1) assms(2) ne g])
    have p1: "stderr_of (trace (snd (mountCmd env args outputJSON w))) =
             map (\<lambda>e. Error e @ nl) (butlast ?fs)"
      by (simp only: cmd stderr_render explicit_stderr)
    have "fst (render env outputJSON ?sf) = lastError ?sf"
    proof (cases outputJSON)
      case True
      obtain data where "MarshalIndent env (jsonMounts ?sf) = Inr data"
        unfolding assms(3) using json_MarshalIndent_total by blast
      with True show ?thesis by (simp add: render_json_ok)
    next
      case False
      then show ?thesis by (simp add: render_text)
    qed
    then have p2: "fst (mountCmd env args outputJSON w) =
                     (if ?fs = [] then None else Some (last ?fs))"
      by (simp only: cmd explicit_lastError)
    show ?thesis
      unfolding rec using p1 p2 by simp
  qed
qed

theorem failures_printed_or_returned_witness:
  "VerifyFlagsArgsOrder (demo_env ''vfs'' 1000) [''a'', ''b'', ''c''] = None
   \<and> getStore (demo_env ''vfs'' 1000) [] = (Inr \<lparr>GraphDriverName = ''vfs''\<rparr>, [])
   \<and> MarshalIndent (demo_env ''vfs'' 1000) = json_MarshalIndent (\<lambda>s. dq @ s @ dq)
   \<and> recorded_failures (demo_env ''vfs'' 1000) \<lparr>GraphDriverName = ''vfs''\<rparr> [''a'', ''b'', ''c''] [] =
       [Wrapf (Errorf ''container not known'') (''error reading build container '' @ dq @ ''a'' @ dq),
        Wrapf (Errorf ''device busy'')
          (''error mounting '' @ dq @ ''c'' @ dq @ '' container '' @ dq @ ''gamma'' @ dq)]
   \<and> stderr_of (trace (snd (mountCmd (demo_env ''vfs'' 1000) [''a'', ''b'', ''c''] False []))) =
       [''error reading build container '' @ dq @ ''a'' @ dq @ '': container not known'' @ nl]
   \<and> fst (mountCmd (demo_env ''vfs'' 1000) [''a'', ''b'', ''c''] False []) =
       Some (Wrapf (Errorf ''device busy'')
          (''error mounting '' @ dq @ ''c'' @ dq @ '' container '' @ dq @ ''gamma'' @ dq))
   \<and> stderr_of (trace (snd (mountCmd (demo_env ''vfs'' 1000) [''a'', ''b'', ''c''] True []))) =
       [''error reading build container '' @ dq @ ''a'' @ dq @ '': container not known'' @ nl]
   \<and> fst (mountCmd (demo_env ''vfs'' 1000) [''a'', ''b'', ''c''] True []) =
       Some (Wrapf (Errorf ''device busy'')
          (''error mounting '' @ dq @ ''c'' @ dq @ '' container '' @ dq @ ''gamma'' @ dq))"
proof -
  let ?env = "demo_env ''vfs'' 1000"
  let ?st = "\<lparr>GraphDriverName = ''vfs''\<rparr>"
  have h1: "VerifyFlagsArgsOrder ?env [''a'', ''b'', ''c''] = None" by (simp add: demo_env_def)
  have h2: "getStore ?env [] = (Inr ?st, [])" by (simp add: demo_env_def)
  have h3: "MarshalIndent ?env = json_MarshalIndent (\<lambda>s. dq @ s @ dq)"
    by (simp add: demo_env_def)
  have a: "attempts ?env ?st [''a'', ''b'', ''c''] [] =
       [(''a'', ResolveFailed (Errorf ''container not known'')),
        (''b'', MountedAt (mk_builder ''beta'' []) ''/mnt/beta''),
        (''c'', MountFailed (mk_builder ''gamma'' []) (Errorf ''device busy''))]"
    by (simp add: attempt_def demo_env_def demo_openBuilder_def demo_Mount_def mk_builder_def)
  have q: "quote ?env = (\<lambda>s. dq @ s @ dq)" by (simp add: demo_env_def)
  have f: "failures ?env (attempts ?env ?st [''a'', ''b'', ''c''] []) =
       [Wrapf (Errorf ''container not known'') (''error reading build container '' @ dq @ ''a'' @ dq),
        Wrapf (Errorf ''device busy'')
          (''error mounting '' @ dq @ ''c'' @ dq @ '' container '' @ dq @ ''gamma'' @ dq)]"
    by (simp only: a) (simp add: failures_def q mk_builder_def)
  have r: "recorded_failures ?env ?st [''a'', ''b'', ''c''] [] =
       [Wrapf (Errorf ''container not known'') (''error reading build container '' @ dq @ ''a'' @ dq),
        Wrapf (Errorf ''device busy'')
          (''error mounting '' @ dq @ ''c'' @ dq @ '' container '' @ dq @ ''gamma'' @ dq)]"
    unfolding recorded_failures_def f by simp
  have r1: "stderr_of (trace (snd (mountCmd ?env [''a'', ''b'', ''c''] False []))) =
       [''error reading build container '' @ dq @ ''a'' @ dq @ '': container not known'' @ nl]
     \<and> fst (mountCmd ?env [''a'', ''b'', ''c''] False []) =
       Some (Wrapf (Errorf ''device busy'')
          (''error mounting '' @ dq @ ''c'' @ dq @ '' container '' @ dq @ ''gamma'' @ dq))"
    using failures_printed_or_returned [OF h1 h2 h3, of False]
    unfolding r by simp
  have r2: "stderr_of (trace (snd (mountCmd ?env [''a'', ''b'', ''c''] True []))) =
       [''error reading build container '' @ dq @ ''a'' @ dq @ '': container not known'' @ nl]
     \<and> fst (mountCmd ?env [''a'', ''b'', ''c''] True []) =
       Some (Wrapf (Errorf ''device busy'')
          (''error mounting '' @ dq @ ''c'' @ dq @ '' container '' @ dq @ ''gamma'' @ dq))"
    using failures_printed_or_returned [OF h1 h2 h3, of True]
    unfolding r by simp
  show ?thesis
    using r1 r2 by (intro conjI h1 h2 h3 r) blast+
qed

subsection \<open>The JSON document of no results\<close>

lemma extend_slice_None_Nil: "extend_slice None [] = None"
  by (simp add: extend_slice_def)

text \<open>
  C5 does not hold of the code. The slice \<^verbatim>\<open>jsonMounts\<close> is declared without a value
  (line 69), so it is nil until the first \<^verbatim>\<open>append\<close>; with no result it is still nil at
  line 133, and the encoder writes a nil slice as \<^verbatim>\<open>null\<close>. What the code does: in JSON
  mode, a command that reaches line 133 with no result collected, with targets that all
  failed or with no target and no mounted builder, writes the four characters
  \<^verbatim>\<open>null\<close> and a newline, not \<^verbatim>\<open>[]\<close>.
\<close>

theorem zero_results_document:
  assumes "VerifyFlagsArgsOrder env args = None"
    and "getStore env w = (Inr st, w1)"
    and "MarshalIndent env = json_MarshalIndent enc"
  shows "(args \<noteq> [] \<and> (Geteuid env = 0 \<or> GraphDriverName st = ''vfs'')
            \<and> mounts (attempts env st args w1) = [] \<longrightarrow>
            jsonMounts (snd (mountCmd env args True w)) = None
            \<and> stdout_of (trace (snd (mountCmd env args True w))) = [''null'' @ nl])
       \<and> (args = [] \<and> (\<exists>bs w2. openBuilders env st w1 = (Inr bs, w2)
                              \<and> query_error (queries env bs w2) = None
                              \<and> mounted_builders (queries env bs w2) = []) \<longrightarrow>
            jsonMounts (snd (mountCmd env args True w)) = None
            \<and> stdout_of (trace (snd (mountCmd env args True w))) = [''null'' @ nl])"
proof -
  have null: "render env True s = (lastError s, s\<lparr>trace := trace s @ [Stdout (''null'' @ nl)]\<rparr>)"
    if "jsonMounts s = None" for s :: "'a state"
    using that by (simp add: render_def assms(3) json_MarshalIndent_def)
  have p1: "args \<noteq> [] \<and> (Geteuid env = 0 \<or> GraphDriverName st = ''vfs'')
            \<and> mounts (attempts env st args w1) = [] \<longrightarrow>
            jsonMounts (snd (mountCmd env args True w)) = None
            \<and> stdout_of (trace (snd (mountCmd env args True w))) = [''null'' @ nl]"
  proof
    assume h: "args \<noteq> [] \<and> (Geteuid env = 0 \<or> GraphDriverName st = ''vfs'')
            \<and> mounts (attempts env st args w1) = []"
    let ?sf = "mountTargets env st True args args (init_state w1)"
    have cmd: "mountCmd env args True w = render env True ?sf"
      using h by (intro mountCmd_explicit [OF assms(1) assms(2)]) simp_all
    have js: "jsonMounts ?sf = None"
      using h by (simp add: jsonMounts_mountTargets_json init_state_def extend_slice_None_Nil)
    show "jsonMounts (snd (mountCmd env args True w)) = None
            \<and> stdout_of (trace (snd (mountCmd env args True w))) = [''null'' @ nl]"
      unfolding cmd null [OF js]
      by (simp add: js stdout_of_append explicit_stdout_json)
  qed
  have p2: "args = [] \<and> (\<exists>bs w2. openBuilders env st w1 = (Inr bs, w2)
                              \<and> query_error (queries env bs w2) = None
                              \<and> mounted_builders (queries env bs w2) = []) \<longrightarrow>
            jsonMounts (snd (mountCmd env args True w)) = None
            \<and> stdout_of (trace (snd (mountCmd env args True w))) = [''null'' @ nl]"
  proof
    assume h: "args = [] \<and> (\<exists>bs w2. openBuilders env st w1 = (Inr bs, w2)
                              \<and> query_error (queries env bs w2) = None
                              \<and> mounted_builders (queries env bs w2) = [])"
    then obtain bs w2 where ob: "openBuilders env st w1 = (Inr bs, w2)"
      and qe: "query_error (queries env bs w2) = None"
      and mb: "mounted_builders (queries env bs w2) = []" by blast
    let ?s0 = "(init_state w2)\<lparr>trace := [OpenBuildersCall]\<rparr>"
    let ?r = "listMounted env True bs ?s0"
    have v: "VerifyFlagsArgsOrder env [] = None" using assms(1) h by simp
    have f: "fst ?r = None"
      using qe by (simp add: fst_listMounted init_state_def)
    have cmd: "mountCmd env [] True w = render env True (snd ?r)"
      using f by (cases ?r) (simp add: mountCmd_listing [OF v assms(2) ob])
    have js: "jsonMounts (snd ?r) = None"
      using mb by (simp add: jsonMounts_listMounted_json init_state_def extend_slice_None_Nil)
    have out: "stdout_of (trace (snd ?r)) = []"
      by (simp add: stdout_listMounted_json init_state_def)
    have "jsonMounts (snd (mountCmd env [] True w)) = None
            \<and> stdout_of (trace (snd (mountCmd env [] True w))) = [''null'' @ nl]"
      unfolding cmd null [OF js]
      by (simp add: js stdout_of_append out)
    with h show "jsonMounts (snd (mountCmd env args True w)) = None
            \<and> stdout_of (trace (snd (mountCmd env args True w))) = [''null'' @ nl]"
      by simp
  qed
  show ?thesis using p1 p2 by (intro conjI)
qed

theorem zero_results_document_witness:
  "VerifyFlagsArgsOrder (demo_env ''vfs'' 0) [''x''] = None
   \<and> getStore (demo_env ''vfs'' 0) [] = (Inr \<lparr>GraphDriverName = ''vfs''\<rparr>, [])
   \<and> MarshalIndent (demo_env ''vfs'' 0) = json_MarshalIndent (\<lambda>s. dq @ s @ dq)
   \<and> [''x''] \<noteq> []
   \<and> Geteuid (demo_env ''vfs'' 0) = 0
   \<and> mounts (attempts (demo_env ''vfs'' 0) \<lparr>GraphDriverName = ''vfs''\<rparr> [''x''] []) = []
   \<and> jsonMounts (snd (mountCmd (demo_env ''vfs'' 0) [''x''] True [])) = None
   \<and> stdout_of (trace (snd (mountCmd (demo_env ''vfs'' 0) [''x''] True []))) = [''null'' @ nl]
   \<and> [''null'' @ nl] \<noteq> [''[]'' @ nl]
   \<and> openBuilders demo_env_one_builder \<lparr>GraphDriverName = ''vfs''\<rparr> [] =
       (Inr [mk_builder ''beta'' ''/mnt/beta''], [])
   \<and> queries demo_env_one_builder [mk_builder ''beta'' ''/mnt/beta''] [] =
       [(mk_builder ''beta'' ''/mnt/beta'', Inr False)]
   \<and> fst (mountCmd demo_env_one_builder [] True []) = None
   \<and> stdout_of (trace (snd (mountCmd demo_env_one_builder [] True []))) = [''null'' @ nl]"
proof -
  let ?env = "demo_env ''vfs'' 0"
  have h1: "VerifyFlagsArgsOrder ?env [''x''] = None" by (simp add: demo_env_def)
  have h2: "getStore ?env [] = (Inr \<lparr>GraphDriverName = ''vfs''\<rparr>, [])" by (simp add: demo_env_def)
  have h3: "MarshalIndent ?env = json_MarshalIndent (\<lambda>s. dq @ s @ dq)" by (simp add: demo_env_def)
  have h4: "Geteuid ?env = 0" by (simp add: demo_env_def)
  have h5: "mounts (attempts ?env \<lparr>GraphDriverName = ''vfs''\<rparr> [''x''] []) = []"
    by (simp add: mounts_def attempt_def demo_env_def demo_openBuilder_def)
  let ?one = demo_env_one_builder
  have g1: "VerifyFlagsArgsOrder ?one [] = None"
    by (simp add: demo_env_one_builder_def demo_env_def)
  have g2: "getStore ?one [] = (Inr \<lparr>GraphDriverName = ''vfs''\<rparr>, [])"
    by (simp add: demo_env_one_builder_def demo_env_def)
  have g3: "MarshalIndent ?one = json_MarshalIndent (\<lambda>s. dq @ s @ dq)"
    by (simp add: demo_env_one_builder_def demo_env_def)
  have g4: "openBuilders ?one \<lparr>GraphDriverName = ''vfs''\<rparr> [] =
       (Inr [mk_builder ''beta'' ''/mnt/beta''], [])"
    by (simp add: demo_env_one_builder_def demo_env_def)
  have g5: "queries ?one [mk_builder ''beta'' ''/mnt/beta''] [] =
       [(mk_builder ''beta'' ''/mnt/beta'', Inr False)]"
    by (simp add: demo_env_one_builder_def demo_env_def demo_Mounted_def mk_builder_def)
  have g6: "fst (mountCmd ?one [] True []) = None"
    by (simp add: mountCmd_def demo_env_one_builder_def demo_env_def
          demo_Mounted_def mk_builder_def reportMounted_def render_def init_state_def
          json_MarshalIndent_def)
  have g7: "\<exists>bs w2. openBuilders ?one \<lparr>GraphDriverName = ''vfs''\<rparr> [] = (Inr bs, w2)
              \<and> query_error (queries ?one bs w2) = None
              \<and> mounted_builders (queries ?one bs w2) = []"
    using g4 g5 by (simp add: mounted_builders_def)
  show ?thesis
    using h1 h2 h3 h4 h5 g4 g5 g6 g7 zero_results_document [OF h1 h2 h3]
      zero_results_document [OF g1 g2 g3]
    by simp
qed

subsection \<open>The identifier of a result\<close>

lemma mounts_names: "(n, mp) \<in> set (mounts as) \<Longrightarrow> n \<in> fst ` set as"
proof (induction as)
  case Nil
  then show ?case by (simp add: mounts_def)
next
  case (Cons a as)
  obtain name oc where a: "a = (name, oc)" by (cases a)
  from Cons a show ?case
    by (cases oc) (auto simp: mounts_Cons)
qed

lemma mounts_args: "(n, mp) \<in> set (mounts (attempts env st args w)) \<Longrightarrow> n \<in> set args"
proof -
  assume "(n, mp) \<in> set (mounts (attempts env st args w))"
  then have "n \<in> fst ` set (attempts env st args w)" by (rule mounts_names)
  then have "n \<in> set (map fst (attempts env st args w))" by simp
  then show "n \<in> set args" by (simp only: attempts_names)
qed



lemma listing_jsonMounts:
  assumes "VerifyFlagsArgsOrder env [] = None"
    and "getStore env w = (Inr st, w1)"
    and "openBuilders env st w1 = (Inr bs, w2)"
  shows "slice_elems (jsonMounts (snd (mountCmd env [] True w))) =
           map (\<lambda>b. \<lparr>container = Container b, mountPoint = MountPoint b\<rparr>)
               (mounted_builders (queries env bs w2))"
proof -
  let ?r = "listMounted env True bs ((init_state w2)\<lparr>trace := [OpenBuildersCall]\<rparr>)"
  have "jsonMounts (snd (mountCmd env [] True w)) = jsonMounts (snd ?r)"
    by (cases ?r) (simp add: mountCmd_listing [OF assms] jsonMounts_render split: option.splits)
  then show ?thesis
    by (simp add: jsonMounts_listMounted_json slice_elems_extend init_state_def)
qed

lemma listing_stdout_text:
  assumes "VerifyFlagsArgsOrder env [] = None"
    and "getStore env w = (Inr st, w1)"
    and "openBuilders env st w1 = (Inr bs, w2)"
  shows "stdout_of (trace (snd (mountCmd env [] False w))) =
           map (\<lambda>b. Container b @ '' '' @ MountPoint b @ nl)
               (mounted_builders (queries env bs w2))"
proof -
  let ?r = "listMounted env False bs ((init_state w2)\<lparr>trace := [OpenBuildersCall]\<rparr>)"
  have "snd (mountCmd env [] False w) = snd ?r"
    by (cases ?r) (simp add: mountCmd_listing [OF assms] render_text split: option.splits)
  then show ?thesis
    by (simp add: stdout_listMounted_text init_state_def)
qed

lemma explicit_cmd_jsonMounts:
  assumes "VerifyFlagsArgsOrder env args = None"
    and "getStore env w = (Inr st, w1)"
    and "args \<noteq> []"
    and "Geteuid env = 0 \<or> GraphDriverName st = ''vfs''"
  shows "slice_elems (jsonMounts (snd (mountCmd env args True w))) =
           map (\<lambda>(n, mp). \<lparr>container = (if 1 < length args then n else []), mountPoint = mp\<rparr>)
               (mounts (attempts env st args w1))"
  by (simp only: mountCmd_explicit [OF assms] jsonMounts_render explicit_jsonMounts)

lemma explicit_cmd_stdout_text:
  assumes "VerifyFlagsArgsOrder env args = None"
    and "getStore env w = (Inr st, w1)"
    and "args \<noteq> []"
    and "Geteuid env = 0 \<or> GraphDriverName st = ''vfs''"
  shows "stdout_of (trace (snd (mountCmd env args False w))) =
           map (\<lambda>(n, mp). if 1 < length args then n @ '' '' @ mp @ nl else mp @ nl)
               (mounts (attempts env st args w1))"
  by (simp only: mountCmd_explicit [OF assms] render_text snd_conv explicit_stdout_text)




subsection \<open>Where the identifier of a result comes from\<close>

lemma map_container_results:
  "map container (map (\<lambda>(n, mp). \<lparr>container = n, mountPoint = mp\<rparr>) xs) = map fst xs"
  by (induction xs) auto

lemma map_container_builders:
  "map container (map (\<lambda>b. \<lparr>container = Container b, mountPoint = MountPoint b\<rparr>) bs) =
     map Container bs"
  by (induction bs) auto

text \<open>
  C10. With more than one target, the identifier of each result, in the buffered record and
  on the text line, is the argument the caller gave for that target: the builder that the
  argument resolved to plays no part in it. With no target, it is the \<^verbatim>\<open>Container\<close>
  field of the builder.
\<close>

theorem identifier_source:
  assumes "VerifyFlagsArgsOrder env args = None"
    and "getStore env w = (Inr st, w1)"
  shows "(1 < length args \<and> (Geteuid env = 0 \<or> GraphDriverName st = ''vfs'') \<longrightarrow>
            map container (slice_elems (jsonMounts (snd (mountCmd env args True w)))) =
              map fst (mounts (attempts env st args w1))
            \<and> stdout_of (trace (snd (mountCmd env args False w))) =
                map (\<lambda>(n, mp). n @ '' '' @ mp @ nl) (mounts (attempts env st args w1))
            \<and> set (map fst (mounts (attempts env st args w1))) \<subseteq> set args)
       \<and> (\<forall>bs w2. args = [] \<and> openBuilders env st w1 = (Inr bs, w2) \<longrightarrow>
            map container (slice_elems (jsonMounts (snd (mountCmd env args True w)))) =
              map Container (mounted_builders (queries env bs w2))
            \<and> stdout_of (trace (snd (mountCmd env args False w))) =
                map (\<lambda>b. Container b @ '' '' @ MountPoint b @ nl)
                    (mounted_builders (queries env bs w2)))"
proof -
  have p1: "1 < length args \<and> (Geteuid env = 0 \<or> GraphDriverName st = ''vfs'') \<longrightarrow>
            map container (slice_elems (jsonMounts (snd (mountCmd env args True w)))) =
              map fst (mounts (attempts env st args w1))
            \<and> stdout_of (trace (snd (mountCmd env args False w))) =
                map (\<lambda>(n, mp). n @ '' '' @ mp @ nl) (mounts (attempts env st args w1))
            \<and> set (map fst (mounts (attempts env st args w1))) \<subseteq> set args"
  proof
    assume h: "1 < length args \<and> (Geteuid env = 0 \<or> GraphDriverName st = ''vfs'')"
    then have many: "1 < length args" and g: "Geteuid env = 0 \<or> GraphDriverName st = ''vfs''"
      by simp_all
    from many have ne: "args \<noteq> []" by auto
    have j: "slice_elems (jsonMounts (snd (mountCmd env args True w))) =
               map (\<lambda>(n, mp). \<lparr>container = n, mountPoint = mp\<rparr>) (mounts (attempts env st args w1))"
      using many by (simp add: explicit_cmd_jsonMounts [OF assms ne g])
    have t: "stdout_of (trace (snd (mountCmd env args False w))) =
                map (\<lambda>(n, mp). n @ '' '' @ mp @ nl) (mounts (attempts env st args w1))"
      using many by (simp add: explicit_cmd_stdout_text [OF assms ne g])
    have s: "set (map fst (mounts (attempts env st args w1))) \<subseteq> set args"
      using mounts_args [of _ _ env st args w1] by auto
    show "map container (slice_elems (jsonMounts (snd (mountCmd env args True w)))) =
              map fst (mounts (attempts env st args w1))
            \<and> stdout_of (trace (snd (mountCmd env args False w))) =
                map (\<lambda>(n, mp). n @ '' '' @ mp @ nl) (mounts (attempts env st args w1))
            \<and> set (map fst (mounts (attempts env st args w1))) \<subseteq> set args"
      using t s by (simp only: j map_container_results)
  qed
  have p2: "args = [] \<and> openBuilders env st w1 = (Inr bs, w2) \<longrightarrow>
            map container (slice_elems (jsonMounts (snd (mountCmd env args True w)))) =
              map Container (mounted_builders (queries env bs w2))
            \<and> stdout_of (trace (snd (mountCmd env args False w))) =
                map (\<lambda>b. Container b @ '' '' @ MountPoint b @ nl)
                    (mounted_builders (queries env bs w2))" for bs w2
  proof
    assume h: "args = [] \<and> openBuilders env st w1 = (Inr bs, w2)"
    then have e: "args = []" and ob: "openBuilders env st w1 = (Inr bs, w2)" by simp_all
    have v: "VerifyFlagsArgsOrder env [] = None" using assms(1) e by simp
    show "map container (slice_elems (jsonMounts (snd (mountCmd env args True w)))) =
              map Container (mounted_builders (queries env bs w2))
            \<and> stdout_of (trace (snd (mountCmd env args False w))) =
                map (\<lambda>b. Container b @ '' '' @ MountPoint b @ nl)
                    (mounted_builders (queries env bs w2))"
      unfolding e
      by (simp only: listing_jsonMounts [OF v assms(2) ob] listing_stdout_text [OF v assms(2) ob]
            map_container_builders)
  qed
  show ?thesis using p1 p2 by blast
qed

theorem identifier_source_witness:
  "VerifyFlagsArgsOrder (demo_env ''vfs'' 1000) [''b'', ''d''] = None
   \<and> getStore (demo_env ''vfs'' 1000) [] = (Inr \<lparr>GraphDriverName = ''vfs''\<rparr>, [])
   \<and> 1 < length [''b'', ''d'']
   \<and> GraphDriverName \<lparr>GraphDriverName = ''vfs''\<rparr> = ''vfs''
   \<and> attempts (demo_env ''vfs'' 1000) \<lparr>GraphDriverName = ''vfs''\<rparr> [''b'', ''d''] [] =
       [(''b'', MountedAt \<lparr>Container = ''beta'', MountLabel = ''lbl'', MountPoint = []\<rparr> ''/mnt/beta''),
        (''d'', MountedAt \<lparr>Container = ''delta'', MountLabel = ''lbl'', MountPoint = []\<rparr> ''/mnt/delta'')]
   \<and> map container (slice_elems (jsonMounts (snd (mountCmd (demo_env ''vfs'' 1000) [''b'', ''d''] True []))))
       = [''b'', ''d'']
   \<and> stdout_of (trace (snd (mountCmd (demo_env ''vfs'' 1000) [''b'', ''d''] False []))) =
       [''b /mnt/beta'' @ nl, ''d /mnt/delta'' @ nl]
   \<and> VerifyFlagsArgsOrder demo_env_one_builder [] = None
   \<and> getStore demo_env_one_builder [''beta''] = (Inr \<lparr>GraphDriverName = ''vfs''\<rparr>, [''beta''])
   \<and> openBuilders demo_env_one_builder \<lparr>GraphDriverName = ''vfs''\<rparr> [''beta''] =
       (Inr [mk_builder ''beta'' ''/mnt/beta''], [''beta''])
   \<and> map container (slice_elems (jsonMounts (snd (mountCmd demo_env_one_builder [] True [''beta'']))))
       = [''beta'']
   \<and> stdout_of (trace (snd (mountCmd demo_env_one_builder [] False [''beta'']))) =
       [''beta /mnt/beta'' @ nl]"
proof -
  let ?env = "demo_env ''vfs'' 1000"
  let ?one = demo_env_one_builder
  let ?st = "\<lparr>GraphDriverName = ''vfs''\<rparr>"
  have h1: "VerifyFlagsArgsOrder ?env [''b'', ''d''] = None" by (simp add: demo_env_def)
  have h2: "getStore ?env [] = (Inr ?st, [])" by (simp add: demo_env_def)
  have g: "1 < length [''b'', ''d''] \<and> (Geteuid ?env = 0 \<or> GraphDriverName ?st = ''vfs'')" by simp
  have a: "attempts ?env ?st [''b'', ''d''] [] =
       [(''b'', MountedAt \<lparr>Container = ''beta'', MountLabel = ''lbl'', MountPoint = []\<rparr> ''/mnt/beta''),
        (''d'', MountedAt \<lparr>Container = ''delta'', MountLabel = ''lbl'', MountPoint = []\<rparr> ''/mnt/delta'')]"
    by (simp add: attempt_def demo_env_def demo_openBuilder_def demo_Mount_def mk_builder_def)
  have m: "mounts (attempts ?env ?st [''b'', ''d''] []) = [(''b'', ''/mnt/beta''), (''d'', ''/mnt/delta'')]"
    unfolding a by (simp add: mounts_def)
  have g1: "VerifyFlagsArgsOrder ?one [] = None"
    by (simp add: demo_env_one_builder_def demo_env_def)
  have g2: "getStore ?one [''beta''] = (Inr ?st, [''beta''])"
    by (simp add: demo_env_one_builder_def demo_env_def)
  have g3: "openBuilders ?one ?st [''beta''] = (Inr [mk_builder ''beta'' ''/mnt/beta''], [''beta''])"
    by (simp add: demo_env_one_builder_def demo_env_def)
  have q: "mounted_builders (queries ?one [mk_builder ''beta'' ''/mnt/beta''] [''beta'']) =
             [mk_builder ''beta'' ''/mnt/beta'']"
    by (simp add: mounted_builders_def demo_env_one_builder_def demo_env_def demo_Mounted_def
          mk_builder_def)
  have r1: "map container (slice_elems (jsonMounts (snd (mountCmd ?env [''b'', ''d''] True [])))) = [''b'', ''d'']
          \<and> stdout_of (trace (snd (mountCmd ?env [''b'', ''d''] False []))) =
              [''b /mnt/beta'' @ nl, ''d /mnt/delta'' @ nl]"
    using identifier_source [OF h1 h2] g unfolding m by simp
  have r2: "map container (slice_elems (jsonMounts (snd (mountCmd ?one [] True [''beta'']))))
              = [''beta'']
          \<and> stdout_of (trace (snd (mountCmd ?one [] False [''beta'']))) = [''beta /mnt/beta'' @ nl]"
  proof -
    from identifier_source [OF g1 g2] g3 have
      "map container (slice_elems (jsonMounts (snd (mountCmd ?one [] True [''beta''])))) =
         map Container (mounted_builders (queries ?one [mk_builder ''beta'' ''/mnt/beta''] [''beta'']))
       \<and> stdout_of (trace (snd (mountCmd ?one [] False [''beta'']))) =
           map (\<lambda>b. Container b @ '' '' @ MountPoint b @ nl)
               (mounted_builders (queries ?one [mk_builder ''beta'' ''/mnt/beta''] [''beta'']))"
      by blast
    then show ?thesis unfolding q by (simp add: mk_builder_def)
  qed
  show ?thesis
    using h1 h2 a g1 g2 g3 r1 r2 by simp
qed

subsection \<open>Mounting a mounted target again\<close>

lemma single_target_run:
  assumes "VerifyFlagsArgsOrder env [name] = None"
    and "getStore env w = (Inr st, w1)"
    and "Geteuid env = 0 \<or> GraphDriverName st = ''vfs''"
    and "attempt env st name w1 = (MountedAt b p, w2)"
  shows "world (snd (mountCmd env [name] j w)) = w2"
    and "slice_elems (jsonMounts (snd (mountCmd env [name] True w))) =
           [\<lparr>container = [], mountPoint = p\<rparr>]"
    and "stdout_of (trace (snd (mountCmd env [name] False w))) = [p @ nl]"
proof -
  have ne: "[name] \<noteq> []" by simp
  have cmd: "mountCmd env [name] j w =
               render env j (mountTargets env st j [name] [name] (init_state w1))" for j
    by (rule mountCmd_explicit [OF assms(1) assms(2) ne assms(3)])
  have a: "attempts env st [name] w1 = [(name, MountedAt b p)]"
    using assms(4) by simp
  show "world (snd (mountCmd env [name] j w)) = w2"
    using assms(4) by (simp add: cmd world_render world_mountTarget init_state_def)
  show "slice_elems (jsonMounts (snd (mountCmd env [name] True w))) =
           [\<lparr>container = [], mountPoint = p\<rparr>]"
    unfolding explicit_cmd_jsonMounts [OF assms(1) assms(2) ne assms(3)] a
    by (simp add: mounts_def)
  show "stdout_of (trace (snd (mountCmd env [name] False w))) = [p @ nl]"
    unfolding explicit_cmd_stdout_text [OF assms(1) assms(2) ne assms(3)] a
    by (simp add: mounts_def)
qed

text \<open>
  C8. The command is run on one target, and run again on the same target in the world the
  first run left. Both times the target resolves and the collaborator's mount succeeds,
  with the path \<open>p\<close> the first time and \<open>p'\<close> the second. Then the result of each run has
  the path the collaborator returned in that run, and the two results are the same when the
  collaborator returned the same path.
\<close>

theorem mount_twice_same_path:
  assumes "VerifyFlagsArgsOrder env [name] = None"
    and "getStore env w = (Inr st, w1)"
    and "Geteuid env = 0 \<or> GraphDriverName st = ''vfs''"
    and "attempt env st name w1 = (MountedAt b p, w2)"
    and "getStore env w2 = (Inr st', w3)"
    and "Geteuid env = 0 \<or> GraphDriverName st' = ''vfs''"
    and "attempt env st' name w3 = (MountedAt b' p', w4)"
  shows "world (snd (mountCmd env [name] outputJSON w)) = w2
       \<and> slice_elems (jsonMounts (snd (mountCmd env [name] True w))) =
           [\<lparr>container = [], mountPoint = p\<rparr>]
       \<and> stdout_of (trace (snd (mountCmd env [name] False w))) = [p @ nl]
       \<and> slice_elems (jsonMounts (snd (mountCmd env [name] True
                                         (world (snd (mountCmd env [name] outputJSON w)))))) =
           [\<lparr>container = [], mountPoint = p'\<rparr>]
       \<and> stdout_of (trace (snd (mountCmd env [name] False
                                   (world (snd (mountCmd env [name] outputJSON w)))))) =
           [p' @ nl]
       \<and> (p' = p \<longrightarrow>
            slice_elems (jsonMounts (snd (mountCmd env [name] True
                                           (world (snd (mountCmd env [name] outputJSON w)))))) =
              slice_elems (jsonMounts (snd (mountCmd env [name] True w)))
            \<and> stdout_of (trace (snd (mountCmd env [name] False
                                        (world (snd (mountCmd env [name] outputJSON w)))))) =
                stdout_of (trace (snd (mountCmd env [name] False w))))"
proof -
  note first = single_target_run [OF assms(1) assms(2) assms(3) assms(4)]
  note second = single_target_run [OF assms(1) assms(5) assms(6) assms(7)]
  show ?thesis
    by (simp only: first second) simp
qed

theorem mount_twice_same_path_witness:
  "VerifyFlagsArgsOrder (demo_env ''vfs'' 1000) [''b''] = None
   \<and> getStore (demo_env ''vfs'' 1000) [] = (Inr \<lparr>GraphDriverName = ''vfs''\<rparr>, [])
   \<and> GraphDriverName \<lparr>GraphDriverName = ''vfs''\<rparr> = ''vfs''
   \<and> attempt (demo_env ''vfs'' 1000) \<lparr>GraphDriverName = ''vfs''\<rparr> ''b'' [] =
       (MountedAt (mk_builder ''beta'' []) ''/mnt/beta'', [''beta''])
   \<and> getStore (demo_env ''vfs'' 1000) [''beta''] = (Inr \<lparr>GraphDriverName = ''vfs''\<rparr>, [''beta''])
   \<and> attempt (demo_env ''vfs'' 1000) \<lparr>GraphDriverName = ''vfs''\<rparr> ''b'' [''beta''] =
       (MountedAt (mk_builder ''beta'' []) ''/mnt/beta'', [''beta'', ''beta''])
   \<and> world (snd (mountCmd (demo_env ''vfs'' 1000) [''b''] False [])) = [''beta'']
   \<and> stdout_of (trace (snd (mountCmd (demo_env ''vfs'' 1000) [''b''] False []))) =
       [''/mnt/beta'' @ nl]
   \<and> stdout_of (trace (snd (mountCmd (demo_env ''vfs'' 1000) [''b''] False
        (world (snd (mountCmd (demo_env ''vfs'' 1000) [''b''] False [])))))) =
       [''/mnt/beta'' @ nl]
   \<and> slice_elems (jsonMounts (snd (mountCmd (demo_env ''vfs'' 1000) [''b''] True
        (world (snd (mountCmd (demo_env ''vfs'' 1000) [''b''] False [])))))) =
       [\<lparr>container = [], mountPoint = ''/mnt/beta''\<rparr>]"
proof -
  let ?env = "demo_env ''vfs'' 1000"
  let ?st = "\<lparr>GraphDriverName = ''vfs''\<rparr>"
  have h1: "VerifyFlagsArgsOrder ?env [''b''] = None" by (simp add: demo_env_def)
  have h2: "getStore ?env [] = (Inr ?st, [])" by (simp add: demo_env_def)
  have h3: "Geteuid ?env = 0 \<or> GraphDriverName ?st = ''vfs''" by simp
  have h4: "attempt ?env ?st ''b'' [] = (MountedAt (mk_builder ''beta'' []) ''/mnt/beta'', [''beta''])"
    by (simp add: attempt_def demo_env_def demo_openBuilder_def demo_Mount_def mk_builder_def)
  have h5: "getStore ?env [''beta''] = (Inr ?st, [''beta''])" by (simp add: demo_env_def)
  have h7: "attempt ?env ?st ''b'' [''beta''] =
              (MountedAt (mk_builder ''beta'' []) ''/mnt/beta'', [''beta'', ''beta''])"
    by (simp add: attempt_def demo_env_def demo_openBuilder_def demo_Mount_def mk_builder_def)
  note r = mount_twice_same_path [OF h1 h2 h3 h4 h5 h3 h7, of False]
  have g: "GraphDriverName ?st = ''vfs''" by simp
  show ?thesis
    using r by (intro conjI h1 h2 h4 h5 h7 g) blast+
qed

subsection \<open>Diagnostics in JSON mode\<close>

lemma filter_not_Stdout_calls_for: "filter (\<lambda>e. \<not> is_Stdout e) (calls_for a) = calls_for a"
  by (cases a rule: calls_for.cases) simp_all

lemma filter_not_Stdout_map_Stderr:
  "filter (\<lambda>e. \<not> is_Stdout e) (map (\<lambda>e. Stderr (f e)) xs) = map (\<lambda>e. Stderr (f e)) xs"
  by (induction xs) simp_all

lemma trace_mountTarget_json_text:
  assumes "world s = world s'" and "lastError s = lastError s'"
    and "trace s = filter (\<lambda>e. \<not> is_Stdout e) (trace s')"
  shows "trace (mountTarget env st True args name s) =
           filter (\<lambda>e. \<not> is_Stdout e) (trace (mountTarget env st False args name s'))"
  using assms
  by (simp add: trace_mountTarget filter_not_Stdout_calls_for filter_not_Stdout_map_Stderr
        split: option.splits)

lemma trace_mountTargets_json_text:
  assumes "world s = world s'" and "lastError s = lastError s'"
    and "trace s = filter (\<lambda>e. \<not> is_Stdout e) (trace s')"
  shows "trace (mountTargets env st True args names s) =
           filter (\<lambda>e. \<not> is_Stdout e) (trace (mountTargets env st False args names s'))"
  using assms
proof (induction names arbitrary: s s')
  case Nil
  then show ?case by simp
next
  case (Cons name rest)
  have w: "world (mountTarget env st True args name s) = world (mountTarget env st False args name s')"
    by (simp add: world_mountTarget Cons.prems(1))
  have l: "lastError (mountTarget env st True args name s) =
             lastError (mountTarget env st False args name s')"
    by (simp add: lastError_mountTarget Cons.prems(1,2) split: option.splits)
  have t: "trace (mountTarget env st True args name s) =
             filter (\<lambda>e. \<not> is_Stdout e) (trace (mountTarget env st False args name s'))"
    by (rule trace_mountTarget_json_text [OF Cons.prems])
  show ?case
    using Cons.IH [OF w l t] by simp
qed

lemma trace_failed_iteration:
  assumes "attempt env st name (world s) = (oc, w')" and "failure_of env (name, oc) = Some f"
  shows "trace (mountTarget env st j args name s) =
           trace s @ calls_for (name, oc)
           @ map (\<lambda>e. Stderr (Error e @ nl)) (pending (lastError s))"
  using assms by (cases oc) (simp_all add: trace_mountTarget)

text \<open>
  C9. For a command with targets that is past the rootless guard. In JSON mode an iteration
  that fails writes the pending failure to standard error within that iteration, right after
  the collaborator calls it made. The trace of the JSON run is that of the text run without
  its writes to standard output, followed by the one document: the collaborator calls and
  the diagnostic lines are the same, in the same order, and the lines on standard error are
  the failures of the batch but the last.
\<close>

theorem json_diagnostics_incremental:
  assumes "VerifyFlagsArgsOrder env args = None"
    and "getStore env w = (Inr st, w1)"
    and "args \<noteq> []"
    and "Geteuid env = 0 \<or> GraphDriverName st = ''vfs''"
  shows "(\<forall>s name oc w' f.
            attempt env st name (world s) = (oc, w') \<and> failure_of env (name, oc) = Some f \<longrightarrow>
            trace (mountTarget env st True args name s) =
              trace s @ calls_for (name, oc)
              @ map (\<lambda>e. Stderr (Error e @ nl)) (pending (lastError s)))
       \<and> (\<forall>data. MarshalIndent env (jsonMounts (snd (mountCmd env args True w))) = Inr data \<longrightarrow>
            trace (snd (mountCmd env args True w)) =
              filter (\<lambda>e. \<not> is_Stdout e) (trace (snd (mountCmd env args False w)))
              @ [Stdout (data @ nl)])
       \<and> stderr_of (trace (snd (mountCmd env args True w))) =
           stderr_of (trace (snd (mountCmd env args False w)))
       \<and> stderr_of (trace (snd (mountCmd env args True w))) =
           map (\<lambda>e. Error e @ nl) (butlast (failures env (attempts env st args w1)))"
proof -
  let ?sj = "mountTargets env st True args args (init_state w1)"
  let ?st = "mountTargets env st False args args (init_state w1)"
  have cmd: "mountCmd env args j w = render env j (mountTargets env st j args args (init_state w1))"
    for j
    by (rule mountCmd_explicit [OF assms])
  have p1: "attempt env st name (world s) = (oc, w') \<and> failure_of env (name, oc) = Some f \<longrightarrow>
            trace (mountTarget env st True args name s) =
              trace s @ calls_for (name, oc)
              @ map (\<lambda>e. Stderr (Error e @ nl)) (pending (lastError s))"
    for s :: "'a state" and name oc w' f
    using trace_failed_iteration [of env st name s oc w' f True args] by blast
  have tr: "trace ?sj = filter (\<lambda>e. \<not> is_Stdout e) (trace ?st)"
    by (rule trace_mountTargets_json_text) (simp_all add: init_state_def)
  have p2: "trace (snd (mountCmd env args True w)) =
              filter (\<lambda>e. \<not> is_Stdout e) (trace (snd (mountCmd env args False w)))
              @ [Stdout (data @ nl)]"
    if "MarshalIndent env (jsonMounts (snd (mountCmd env args True w))) = Inr data" for data
  proof -
    from that have "MarshalIndent env (jsonMounts ?sj) = Inr data"
      by (simp only: cmd jsonMounts_render)
    then have "render env True ?sj = (lastError ?sj, ?sj\<lparr>trace := trace ?sj @ [Stdout (data @ nl)]\<rparr>)"
      by (rule render_json_ok)
    then show ?thesis
      by (simp only: cmd render_text snd_conv) (simp add: tr)
  qed
  have e: "stderr_of (trace (snd (mountCmd env args j w))) =
             map (\<lambda>e. Error e @ nl) (butlast (failures env (attempts env st args w1)))" for j
    by (simp only: cmd stderr_render explicit_stderr)
  show ?thesis
    using p1 p2 e [of True] e [of False] by (intro conjI allI impI) simp_all
qed

theorem json_diagnostics_incremental_witness:
  "VerifyFlagsArgsOrder (demo_env ''vfs'' 1000) [''a'', ''x'', ''b''] = None
   \<and> getStore (demo_env ''vfs'' 1000) [] = (Inr \<lparr>GraphDriverName = ''vfs''\<rparr>, [])
   \<and> [''a'', ''x'', ''b''] \<noteq> []
   \<and> GraphDriverName \<lparr>GraphDriverName = ''vfs''\<rparr> = ''vfs''
   \<and> trace (snd (mountCmd (demo_env ''vfs'' 1000) [''a'', ''x'', ''b''] False [])) =
       [OpenBuilderCall ''a'',
        OpenBuilderCall ''x'',
        Stderr (''error reading build container '' @ dq @ ''a'' @ dq
                @ '': container not known'' @ nl),
        OpenBuilderCall ''b'', MountCall (mk_builder ''beta'' []) ''lbl'',
        Stdout (''b /mnt/beta'' @ nl)]
   \<and> MarshalIndent (demo_env ''vfs'' 1000)
        (jsonMounts (snd (mountCmd (demo_env ''vfs'' 1000) [''a'', ''x'', ''b''] True []))) =
       Inr (''['' @ nl @ ''    {'' @ nl
            @ ''        '' @ dq @ ''container'' @ dq @ '': '' @ dq @ ''b'' @ dq @ '','' @ nl
            @ ''        '' @ dq @ ''mountPoint'' @ dq @ '': '' @ dq @ ''/mnt/beta'' @ dq @ nl
            @ ''    }'' @ nl @ '']'')
   \<and> trace (snd (mountCmd (demo_env ''vfs'' 1000) [''a'', ''x'', ''b''] True [])) =
       [OpenBuilderCall ''a'',
        OpenBuilderCall ''x'',
        Stderr (''error reading build container '' @ dq @ ''a'' @ dq
                @ '': container not known'' @ nl),
        OpenBuilderCall ''b'', MountCall (mk_builder ''beta'' []) ''lbl'',
        Stdout (''['' @ nl @ ''    {'' @ nl
                @ ''        '' @ dq @ ''container'' @ dq @ '': '' @ dq @ ''b'' @ dq @ '','' @ nl
                @ ''        '' @ dq @ ''mountPoint'' @ dq @ '': '' @ dq @ ''/mnt/beta'' @ dq @ nl
                @ ''    }'' @ nl @ '']'' @ nl)]"
proof -
  let ?env = "demo_env ''vfs'' 1000"
  let ?st = "\<lparr>GraphDriverName = ''vfs''\<rparr>"
  let ?doc = "''['' @ nl @ ''    {'' @ nl
            @ ''        '' @ dq @ ''container'' @ dq @ '': '' @ dq @ ''b'' @ dq @ '','' @ nl
            @ ''        '' @ dq @ ''mountPoint'' @ dq @ '': '' @ dq @ ''/mnt/beta'' @ dq @ nl
            @ ''    }'' @ nl @ '']''"
  have h1: "VerifyFlagsArgsOrder ?env [''a'', ''x'', ''b''] = None" by (simp add: demo_env_def)
  have h2: "getStore ?env [] = (Inr ?st, [])" by (simp add: demo_env_def)
  have h3: "[''a'', ''x'', ''b''] \<noteq> []" by simp
  have h4: "Geteuid ?env = 0 \<or> GraphDriverName ?st = ''vfs''" by simp
  have g: "GraphDriverName ?st = ''vfs''" by simp
  have t: "trace (snd (mountCmd ?env [''a'', ''x'', ''b''] False [])) =
       [OpenBuilderCall ''a'',
        OpenBuilderCall ''x'',
        Stderr (''error reading build container '' @ dq @ ''a'' @ dq
                @ '': container not known'' @ nl),
        OpenBuilderCall ''b'', MountCall (mk_builder ''beta'' []) ''lbl'',
        Stdout (''b /mnt/beta'' @ nl)]"
    by (simp add: mountCmd_def render_def mountTarget_def recordFailure_def reportMount_def
          init_state_def demo_env_def demo_openBuilder_def demo_Mount_def mk_builder_def)
  have j: "jsonMounts (snd (mountCmd ?env [''a'', ''x'', ''b''] True [])) =
             Some [\<lparr>container = ''b'', mountPoint = ''/mnt/beta''\<rparr>]"
    by (simp add: mountCmd_def render_def mountTarget_def recordFailure_def reportMount_def
          init_state_def demo_env_def demo_openBuilder_def demo_Mount_def mk_builder_def
          append_slice_def json_MarshalIndent_def)
  have m: "MarshalIndent ?env (jsonMounts (snd (mountCmd ?env [''a'', ''x'', ''b''] True []))) =
             Inr ?doc"
    unfolding j
    by (simp add: demo_env_def json_MarshalIndent_def json_object_def json_fields_def)
  from json_diagnostics_incremental [OF h1 h2 h3 h4] m
  have "trace (snd (mountCmd ?env [''a'', ''x'', ''b''] True [])) =
          filter (\<lambda>e. \<not> is_Stdout e) (trace (snd (mountCmd ?env [''a'', ''x'', ''b''] False [])))
          @ [Stdout (?doc @ nl)]"
    by blast
  then have tj: "trace (snd (mountCmd ?env [''a'', ''x'', ''b''] True [])) =
       [OpenBuilderCall ''a'',
        OpenBuilderCall ''x'',
        Stderr (''error reading build container '' @ dq @ ''a'' @ dq
                @ '': container not known'' @ nl),
        OpenBuilderCall ''b'', MountCall (mk_builder ''beta'' []) ''lbl'',
        Stdout (?doc @ nl)]"
    unfolding t by simp
  show ?thesis
    using h1 h2 t m tj by simp
qed

end
